theory Spec2Isabelle
  imports Main "HOL-Library.Log_Nat"
begin

section \<open>Data model\<close>

text \<open>
  The two-player game subsystem: the \<^verbatim>\<open>Games\<close> screen (room creation and
  matchmaking), the \<^verbatim>\<open>TicTacToe\<close> and \<^verbatim>\<open>RockPaperScissors\<close>
  components, and the \<^verbatim>\<open>game_rooms\<close> table they read and write.

  A board cell is a JavaScript value of type \<^verbatim>\<open>string | null\<close>; reading an
  array out of range gives \<^verbatim>\<open>undefined\<close>.
\<close>

datatype cell = Null | Undefined | Str string

text \<open>
  The \<^verbatim>\<open>game_state\<close> column is a JSON object; the code reads and writes the keys
  \<^verbatim>\<open>board\<close>, \<^verbatim>\<open>currentTurn\<close>, \<^verbatim>\<open>player1Choice\<close> and
  \<^verbatim>\<open>player2Choice\<close>. A key that is absent is \<open>None\<close>. The column default is
  the empty object; every access in the code is through \<^verbatim>\<open>?.\<close> or a spread, so a
  null column behaves as the empty object.
\<close>

record game_state_t =
  board :: "cell list option"
  currentTurn :: "string option"
  player1Choice :: "string option"
  player2Choice :: "string option"

definition empty_game_state :: game_state_t where
  "empty_game_state =
     \<lparr>board = None, currentTurn = None, player1Choice = None, player2Choice = None\<rparr>"

text \<open>A row of \<^verbatim>\<open>game_rooms\<close>. Timestamps are natural numbers.\<close>

record GameRoom =
  room_id :: string
  game_type :: string
  player1_id :: string
  player2_id :: "string option"
  game_state :: game_state_t
  status :: string
  winner_id :: "string option"
  created_at :: nat
  completed_at :: "nat option"

text \<open>
  The object passed to \<^verbatim>\<open>.update(updates)\<close>: a column that is not a key of the
  object is \<open>None\<close> and is left as it is. \<^verbatim>\<open>winner_id\<close> can be assigned null, so
  its presence and its value are separate.
\<close>

record updates =
  u_game_state :: "game_state_t option"
  u_status :: "string option"
  u_winner_id :: "string option option"
  u_completed_at :: "nat option"

definition apply_updates :: "GameRoom \<Rightarrow> updates \<Rightarrow> GameRoom" where
  "apply_updates r u =
     r\<lparr>game_state := (case u_game_state u of None \<Rightarrow> game_state r | Some g \<Rightarrow> g),
       status := (case u_status u of None \<Rightarrow> status r | Some s \<Rightarrow> s),
       winner_id := (case u_winner_id u of None \<Rightarrow> winner_id r | Some w \<Rightarrow> w),
       completed_at := (case u_completed_at u of None \<Rightarrow> completed_at r | Some t \<Rightarrow> Some t)\<rparr>"

text \<open>\<^verbatim>\<open>supabase.from('game_rooms').update(updates).eq('id', id)\<close>, sent by one of the
  two players of the row, whom the update policy of the table admits.\<close>

definition db_update :: "GameRoom list \<Rightarrow> string \<Rightarrow> updates \<Rightarrow> GameRoom list" where
  "db_update tbl rid u = map (\<lambda>r. if room_id r = rid then apply_updates r u else r) tbl"

text \<open>JavaScript truthiness of a \<^verbatim>\<open>string | null | undefined\<close> and of a cell.\<close>

definition truthy :: "string option \<Rightarrow> bool" where
  "truthy v = (case v of None \<Rightarrow> False | Some s \<Rightarrow> s \<noteq> [])"

fun truthy_cell :: "cell \<Rightarrow> bool" where
  "truthy_cell Null = False"
| "truthy_cell Undefined = False"
| "truthy_cell (Str s) = (s \<noteq> [])"

text \<open>\<^verbatim>\<open>squares[i]\<close>: undefined out of range.\<close>

definition cell_at :: "cell list \<Rightarrow> nat \<Rightarrow> cell" where
  "cell_at xs i = (if i < length xs then xs ! i else Undefined)"

text \<open>\<^verbatim>\<open>newBoard[index] = v\<close> on a copy: JavaScript extends the array out of range.\<close>

definition arr_set :: "cell list \<Rightarrow> nat \<Rightarrow> cell \<Rightarrow> cell list" where
  "arr_set xs i v =
     (if i < length xs then xs[i := v]
      else xs @ replicate (i - length xs) Undefined @ [v])"

section \<open>Tic-Tac-Toe component\<close>

record TicTacToe =
  t_user :: "string option"
  t_gameRoom :: GameRoom
  t_board :: "cell list"
  t_currentTurn :: string
  t_winner :: "string option"
  t_gameState :: GameRoom

definition t_isPlayer1 :: "TicTacToe \<Rightarrow> bool" where
  "t_isPlayer1 c = (t_user c = Some (player1_id (t_gameRoom c)))"

definition mySymbol :: "TicTacToe \<Rightarrow> string" where
  "mySymbol c = (if t_isPlayer1 c then ''X'' else ''O'')"

definition or_X :: "string option \<Rightarrow> string" where
  "or_X v = (if truthy v then (case v of Some s \<Rightarrow> s | None \<Rightarrow> ''X'') else ''X'')"

text \<open>The initial state and the body of the mount effect.\<close>

definition ttt_mount :: "string option \<Rightarrow> GameRoom \<Rightarrow> TicTacToe" where
  "ttt_mount usr gr =
     (let c = \<lparr>t_user = usr, t_gameRoom = gr, t_board = replicate 9 Null,
                t_currentTurn = ''X'', t_winner = None, t_gameState = gr\<rparr>
      in case board (game_state gr) of
           None \<Rightarrow> c
         | Some b \<Rightarrow> c\<lparr>t_board := b, t_currentTurn := or_X (currentTurn (game_state gr))\<rparr>)"

definition lines :: "(nat \<times> nat \<times> nat) list" where
  "lines = [(0, 1, 2), (3, 4, 5), (6, 7, 8),
            (0, 3, 6), (1, 4, 7), (2, 5, 8),
            (0, 4, 8), (2, 4, 6)]"

fun checkLines :: "cell list \<Rightarrow> (nat \<times> nat \<times> nat) list \<Rightarrow> cell" where
  "checkLines squares [] = Null"
| "checkLines squares ((a, b, c) # ls) =
     (if truthy_cell (cell_at squares a) \<and> cell_at squares a = cell_at squares b
         \<and> cell_at squares a = cell_at squares c
      then cell_at squares a
      else checkLines squares ls)"

definition checkWinner :: "cell list \<Rightarrow> cell" where
  "checkWinner squares = checkLines squares lines"

text \<open>
  \<^verbatim>\<open>handleClick\<close> sets no local state; its only effect is the update it sends, or none
  when it returns early.
\<close>

definition handleClick :: "TicTacToe \<Rightarrow> nat \<Rightarrow> nat \<Rightarrow> updates option" where
  "handleClick c index now =
     (if truthy_cell (cell_at (t_board c) index) \<or> truthy (t_winner c) then None
      else if (t_currentTurn c = ''X'' \<and> \<not> t_isPlayer1 c)
              \<or> (t_currentTurn c = ''O'' \<and> t_isPlayer1 c) then None
      else if status (t_gameState c) \<noteq> ''in_progress'' then None
      else
        let newBoard = arr_set (t_board c) index (Str (t_currentTurn c));
            winningSymbol = checkWinner newBoard;
            isDraw = (\<not> truthy_cell winningSymbol \<and> list_all (\<lambda>x. x \<noteq> Null) newBoard);
            newTurn = (if t_currentTurn c = ''X'' then ''O'' else ''X'');
            u = \<lparr>u_game_state = Some (\<lparr>board = Some newBoard, currentTurn = Some newTurn,
                                       player1Choice = None, player2Choice = None\<rparr>),
                 u_status = None, u_winner_id = None, u_completed_at = None\<rparr>
        in Some
          (if truthy_cell winningSymbol then
             u\<lparr>u_status := Some ''completed'',
               u_winner_id := Some (if winningSymbol = Str ''X''
                                    then Some (player1_id (t_gameRoom c))
                                    else player2_id (t_gameRoom c)),
               u_completed_at := Some now\<rparr>
           else if isDraw then
             u\<lparr>u_status := Some ''completed'', u_completed_at := Some now\<rparr>
           else u))"

text \<open>
  The \<^verbatim>\<open>postgres_changes\<close> handler: the new local state, and the argument of the
  call to \<^verbatim>\<open>updateStats\<close> when it is called.
\<close>

definition ttt_on_update :: "TicTacToe \<Rightarrow> GameRoom \<Rightarrow> TicTacToe \<times> bool option" where
  "ttt_on_update c updated =
     (let c1 = c\<lparr>t_gameState := updated\<rparr>;
          c2 = (case board (game_state updated) of
                  None \<Rightarrow> c1
                | Some b \<Rightarrow> c1\<lparr>t_board := b,
                              t_currentTurn := or_X (currentTurn (game_state updated))\<rparr>)
      in if truthy (winner_id updated) then
           (c2\<lparr>t_winner := Some (if winner_id updated = t_user c then ''you'' else ''opponent'')\<rparr>,
            Some (winner_id updated = t_user c))
         else (c2, None))"

section \<open>Statistics\<close>

record stats_row =
  games_played :: int
  games_won :: int

text \<open>
  \<^verbatim>\<open>updateStats(won)\<close>, the same function in both components: read the caller's row of
  \<^verbatim>\<open>user_activity_stats\<close>, write it back incremented.
\<close>

definition updateStats ::
  "string option \<Rightarrow> (string \<rightharpoonup> stats_row) \<Rightarrow> bool \<Rightarrow> (string \<rightharpoonup> stats_row)" where
  "updateStats usr st won =
     (case usr of
        None \<Rightarrow> st
      | Some u \<Rightarrow>
          st(u \<mapsto> \<lparr>games_played = (case st u of None \<Rightarrow> 0 | Some s \<Rightarrow> games_played s) + 1,
                   games_won = (case st u of None \<Rightarrow> 0 | Some s \<Rightarrow> games_won s)
                               + (if won then 1 else 0)\<rparr>))"

definition stats_effect ::
  "string option \<Rightarrow> bool option \<Rightarrow> (string \<rightharpoonup> stats_row) \<Rightarrow> (string \<rightharpoonup> stats_row)" where
  "stats_effect usr call st = (case call of None \<Rightarrow> st | Some won \<Rightarrow> updateStats usr st won)"

section \<open>Rock-Paper-Scissors component\<close>

record RockPaperScissors =
  r_user :: "string option"
  r_gameRoom :: GameRoom
  r_myChoice :: "string option"
  r_gameState :: GameRoom
  r_result :: "string option"

definition r_isPlayer1 :: "RockPaperScissors \<Rightarrow> bool" where
  "r_isPlayer1 c = (r_user c = Some (player1_id (r_gameRoom c)))"

definition winConditions :: "string \<Rightarrow> string option" where
  "winConditions k =
     (if k = ''rock'' then Some ''scissors''
      else if k = ''paper'' then Some ''rock''
      else if k = ''scissors'' then Some ''paper''
      else None)"

definition rps_mount :: "string option \<Rightarrow> GameRoom \<Rightarrow> RockPaperScissors" where
  "rps_mount usr gr =
     (let c = \<lparr>r_user = usr, r_gameRoom = gr, r_myChoice = None, r_gameState = gr,
                r_result = None\<rparr>;
          p1 = player1Choice (game_state gr);
          p2 = player2Choice (game_state gr)
      in if truthy p1 \<or> truthy p2 then
           (if r_isPlayer1 c \<and> truthy p1 then c\<lparr>r_myChoice := p1\<rparr>
            else if \<not> r_isPlayer1 c \<and> truthy p2 then c\<lparr>r_myChoice := p2\<rparr>
            else c)
         else c)"

definition determineWinner ::
  "RockPaperScissors \<Rightarrow> GameRoom \<Rightarrow> RockPaperScissors \<times> bool option" where
  "determineWinner c st =
     (case (player1Choice (game_state st), player2Choice (game_state st)) of
        (Some p1Choice, Some p2Choice) \<Rightarrow>
          if p1Choice = [] \<or> p2Choice = [] then (c, None)
          else if p1Choice = p2Choice then (c\<lparr>r_result := Some ''draw''\<rparr>, Some False)
          else
            let player1Wins = (winConditions p1Choice = Some p2Choice);
                iWon = ((r_isPlayer1 c \<and> player1Wins) \<or> (\<not> r_isPlayer1 c \<and> \<not> player1Wins))
            in (c\<lparr>r_result := Some (if iWon then ''win'' else ''lose'')\<rparr>, Some iWon)
      | _ \<Rightarrow> (c, None))"

definition rps_on_update ::
  "RockPaperScissors \<Rightarrow> GameRoom \<Rightarrow> RockPaperScissors \<times> bool option" where
  "rps_on_update c updated =
     (let c1 = c\<lparr>r_gameState := updated\<rparr>
      in if status updated = ''completed'' then determineWinner c1 updated else (c1, None))"

definition makeChoice ::
  "RockPaperScissors \<Rightarrow> string \<Rightarrow> nat \<Rightarrow> RockPaperScissors \<times> updates option" where
  "makeChoice c choice now =
     (if r_user c = None \<or> truthy (r_myChoice c) then (c, None)
      else
        let c' = c\<lparr>r_myChoice := Some choice\<rparr>;
            gs = game_state (r_gameState c);
            u = \<lparr>u_game_state =
                   Some (if r_isPlayer1 c then gs\<lparr>player1Choice := Some choice\<rparr>
                         else gs\<lparr>player2Choice := Some choice\<rparr>),
                 u_status = None, u_winner_id = None, u_completed_at = None\<rparr>;
            otherPlayerChoice = (if r_isPlayer1 c then player2Choice gs else player1Choice gs)
        in case otherPlayerChoice of
             None \<Rightarrow> (c', Some u)
           | Some other \<Rightarrow>
               if other = [] then (c', Some u)
               else
                 let u1 = u\<lparr>u_status := Some ''completed'', u_completed_at := Some now\<rparr>;
                     p1Choice = (if r_isPlayer1 c then choice else other);
                     p2Choice = (if r_isPlayer1 c then other else choice)
                 in if p1Choice \<noteq> p2Choice then
                      (c', Some (u1\<lparr>u_winner_id :=
                                      Some (if winConditions p1Choice = Some p2Choice
                                            then Some (player1_id (r_gameRoom c))
                                            else player2_id (r_gameRoom c))\<rparr>))
                    else (c', Some u1))"

section \<open>The Games screen: room creation and matchmaking\<close>

text \<open>
  The \<^verbatim>\<open>game_rooms\<close> table is the list of its rows. The fresh identifier and the time
  of an insert are parameters; the primary key and the check constraint on
  \<^verbatim>\<open>game_type\<close> are those of the migration that creates the table, and the insert
  policy (\<^verbatim>\<open>auth.uid() = player1_id\<close>) holds for the row \<^verbatim>\<open>createRoom\<close> inserts.
\<close>

definition db_insert ::
  "GameRoom list \<Rightarrow> string \<Rightarrow> nat \<Rightarrow> string \<Rightarrow> string \<Rightarrow> GameRoom list \<times> GameRoom option" where
  "db_insert tbl rid now gameType usr =
     (if (gameType \<noteq> ''tic_tac_toe'' \<and> gameType \<noteq> ''rock_paper_scissors'')
         \<or> rid \<in> set (map room_id tbl)
      then (tbl, None)
      else
        let r = \<lparr>room_id = rid, game_type = gameType, player1_id = usr, player2_id = None,
                  game_state = empty_game_state, status = ''waiting'', winner_id = None,
                  created_at = now, completed_at = None\<rparr>
        in (tbl @ [r], Some r))"

text \<open>
  An update of the rows selected by \<open>P\<close> followed by \<^verbatim>\<open>.select().single()\<close>: the
  second component is \<^verbatim>\<open>data\<close>, and \<open>None\<close> stands for a non-null \<^verbatim>\<open>error\<close>. A
  request for a single row that selects none or several changes nothing.
\<close>

definition update_single ::
  "GameRoom list \<Rightarrow> (GameRoom \<Rightarrow> bool) \<Rightarrow> (GameRoom \<Rightarrow> GameRoom)
     \<Rightarrow> GameRoom list \<times> GameRoom option" where
  "update_single tbl P f =
     (case filter P tbl of
        [r] \<Rightarrow> (map (\<lambda>x. if P x then f x else x) tbl, Some (f r))
      | _ \<Rightarrow> (tbl, None))"

text \<open>
  A filter on the column \<^verbatim>\<open>player2_id\<close> as the client builds it:
  \<^verbatim>\<open>.eq('player2_id', v)\<close> for a JavaScript value \<open>v\<close>, which may be \<^verbatim>\<open>null\<close>, and
  \<^verbatim>\<open>.is('player2_id', null)\<close>.
\<close>

datatype player2_filter = Eq_player2 "string option" | Is_player2_null

text \<open>
  How the datastore of the repository reads such a filter. The column is a nullable
  \<^verbatim>\<open>uuid\<close>. \<^verbatim>\<open>.eq\<close> is sent as \<^verbatim>\<open>player2_id=eq.v\<close> and compares the column with
  \<open>v\<close> read as a uuid; a \<^verbatim>\<open>null\<close> argument is sent as the word \<^verbatim>\<open>null\<close>, which is
  not a uuid, and the request is refused (\<open>None\<close>). \<^verbatim>\<open>.is\<close> is sent as
  \<^verbatim>\<open>player2_id=is.null\<close> and selects the rows whose column is null.
\<close>

fun read_filter :: "player2_filter \<Rightarrow> (string option \<Rightarrow> bool) option" where
  "read_filter (Eq_player2 None) = None"
| "read_filter (Eq_player2 (Some v)) = Some (\<lambda>x. x = Some v)"
| "read_filter Is_player2_null = Some (\<lambda>x. x = None)"

text \<open>
  The update policy of the table, \<^verbatim>\<open>auth.uid() = player1_id OR auth.uid() = player2_id\<close>,
  which is both its \<^verbatim>\<open>USING\<close> and its \<^verbatim>\<open>WITH CHECK\<close> clause.
\<close>

definition update_policy :: "string \<Rightarrow> GameRoom \<Rightarrow> bool" where
  "update_policy uid r = (uid = player1_id r \<or> Some uid = player2_id r)"

text \<open>
  The request \<^verbatim>\<open>.update(f).eq('id', rid)\<close> with a filter on \<^verbatim>\<open>player2_id\<close> and
  \<^verbatim>\<open>.select().single()\<close>, sent by the user \<open>uid\<close>, as the datastore of the repository
  serves it: a filter it cannot read fails the request; the rows the policy lets the user
  update are the only ones selected; a new row that violates the policy fails the
  request.
\<close>

type_synonym join_request =
  "string \<Rightarrow> GameRoom list \<Rightarrow> string \<Rightarrow> player2_filter \<Rightarrow> (GameRoom \<Rightarrow> GameRoom)
     \<Rightarrow> GameRoom list \<times> GameRoom option"

definition supabase_update_single :: join_request where
  "supabase_update_single uid tbl rid flt f =
     (case read_filter flt of
        None \<Rightarrow> (tbl, None)
      | Some holds \<Rightarrow>
          if \<exists>r \<in> set tbl. room_id r = rid \<and> holds (player2_id r) \<and> update_policy uid r
                            \<and> \<not> update_policy uid (f r)
          then (tbl, None)
          else update_single tbl
                 (\<lambda>r. room_id r = rid \<and> holds (player2_id r) \<and> update_policy uid r) f)"

text \<open>A filter read as a precondition on the column: \<^verbatim>\<open>.eq\<close> with a \<^verbatim>\<open>null\<close>
  argument holds on the rows whose column is null.\<close>

fun precondition :: "player2_filter \<Rightarrow> string option \<Rightarrow> bool" where
  "precondition (Eq_player2 v) x = (x = v)"
| "precondition Is_player2_null x = (x = None)"

text \<open>Modelled from the spec: the conditional update of the spec's datastore, a write
  that only takes effect if a stated precondition on the current row still holds. The
  filter on \<^verbatim>\<open>player2_id\<close> is the precondition, a \<^verbatim>\<open>null\<close> argument standing for
  player2 being still null, and every user may write. This is the datastore
  \<^verbatim>\<open>joinRoom\<close> is written for; it is not the datastore of the repository.\<close>

definition conditional_update_single :: join_request where
  "conditional_update_single uid tbl rid flt f =
     update_single tbl (\<lambda>r. room_id r = rid \<and> precondition flt (player2_id r)) f"

datatype alert = OwnRoomAlert | RoomFullAlert | JoinFailedAlert

record Games =
  availableRooms :: "GameRoom list"
  activeGame :: "GameRoom option"
  selectedGameType :: "string option"
  isJoining :: "string option"
  alerts :: "alert list"

definition games_init :: Games where
  "games_init = \<lparr>availableRooms = [], activeGame = None, selectedGameType = None,
                  isJoining = None, alerts = []\<rparr>"

text \<open>The query of \<^verbatim>\<open>loadAvailableRooms\<close>: waiting rooms with no second player,
  most recent first, at most ten.\<close>

definition listOpenRooms :: "GameRoom list \<Rightarrow> GameRoom list" where
  "listOpenRooms tbl =
     take 10 (rev (sort_key created_at
        (filter (\<lambda>r. status r = ''waiting'' \<and> player2_id r = None) tbl)))"

definition loadAvailableRooms :: "Games \<Rightarrow> GameRoom list \<Rightarrow> Games" where
  "loadAvailableRooms g tbl = g\<lparr>availableRooms := listOpenRooms tbl\<rparr>"

definition createRoom ::
  "Games \<Rightarrow> GameRoom list \<Rightarrow> string option \<Rightarrow> string \<Rightarrow> string \<Rightarrow> nat
     \<Rightarrow> Games \<times> GameRoom list" where
  "createRoom g tbl usr gameType rid now =
     (case usr of
        None \<Rightarrow> (g, tbl)
      | Some u \<Rightarrow>
          (case db_insert tbl rid now gameType u of
             (tbl', Some data) \<Rightarrow>
               (g\<lparr>activeGame := Some data, selectedGameType := Some gameType\<rparr>, tbl')
           | (tbl', None) \<Rightarrow> (g, tbl')))"

text \<open>
  \<^verbatim>\<open>joinRoom\<close>. Its request to the datastore,
  \<^verbatim>\<open>.update({player2_id: user.id, status: 'in_progress'}).eq('id', room.id).eq('player2_id', null).select().single()\<close>,
  is passed to the datastore \<open>ds\<close>, a parameter.
\<close>

definition joinRoom ::
  "join_request \<Rightarrow> Games \<Rightarrow> GameRoom list \<Rightarrow> string option \<Rightarrow> GameRoom
     \<Rightarrow> Games \<times> GameRoom list" where
  "joinRoom ds g tbl usr room =
     (case usr of
        None \<Rightarrow> (g, tbl)
      | Some u \<Rightarrow>
          if player1_id room = u then (g\<lparr>alerts := alerts g @ [OwnRoomAlert]\<rparr>, tbl)
          else if truthy (player2_id room) then
            (loadAvailableRooms (g\<lparr>alerts := alerts g @ [RoomFullAlert]\<rparr>) tbl, tbl)
          else
            let g1 = g\<lparr>isJoining := Some (room_id room)\<rparr>
            in case ds u tbl (room_id room) (Eq_player2 None)
                      (\<lambda>r. r\<lparr>player2_id := Some u, status := ''in_progress''\<rparr>) of
                 (tbl', None) \<Rightarrow>
                   ((loadAvailableRooms (g1\<lparr>alerts := alerts g1 @ [JoinFailedAlert]\<rparr>) tbl')
                      \<lparr>isJoining := None\<rparr>, tbl')
               | (tbl', Some data) \<Rightarrow>
                   (g1\<lparr>activeGame := Some data, selectedGameType := Some (game_type room),
                       isJoining := None\<rparr>, tbl'))"

section \<open>Two clients and one table\<close>

text \<open>
  What \<^verbatim>\<open>Games\<close> renders for its \<^verbatim>\<open>activeGame\<close> and
  \<^verbatim>\<open>selectedGameType\<close>: the component of the game type, which receives the
  \<^verbatim>\<open>activeGame\<close> object as its \<^verbatim>\<open>gameRoom\<close> prop. \<^verbatim>\<open>Games\<close> sets
  \<^verbatim>\<open>activeGame\<close> in \<^verbatim>\<open>createRoom\<close> and \<^verbatim>\<open>joinRoom\<close> only, so the prop
  keeps the row as it was then.
\<close>

datatype component = TTT TicTacToe | RPS RockPaperScissors

definition render :: "string option \<Rightarrow> Games \<Rightarrow> component option" where
  "render usr g =
     (case (activeGame g, selectedGameType g) of
        (Some room, Some t) \<Rightarrow>
          if t = ''tic_tac_toe'' then Some (TTT (ttt_mount usr room))
          else if t = ''rock_paper_scissors'' then Some (RPS (rps_mount usr room))
          else None
      | _ \<Rightarrow> None)"

text \<open>Delivery of an UPDATE event of the room's channel to a mounted component.\<close>

fun deliver :: "GameRoom \<Rightarrow> component \<Rightarrow> component" where
  "deliver r (TTT c) =
     (if room_id r = room_id (t_gameRoom c) then TTT (fst (ttt_on_update c r)) else TTT c)"
| "deliver r (RPS c) =
     (if room_id r = room_id (r_gameRoom c) then RPS (fst (rps_on_update c r)) else RPS c)"

text \<open>
  The world: the table, the component of the creating player (\<open>compA\<close>) and the
  component of the joining player (\<open>compB\<close>). Every step below runs one handler of the
  code to its end and delivers the change event of its write to the mounted components
  before the next step, so each handler runs on a copy of the row that is current.
\<close>

record world =
  table :: "GameRoom list"
  compA :: "component option"
  compB :: "component option"

definition world_init :: world where
  "world_init = \<lparr>table = [], compA = None, compB = None\<rparr>"

definition notify :: "world \<Rightarrow> string \<Rightarrow> world" where
  "notify w rid =
     fold (\<lambda>r v. v\<lparr>compA := map_option (deliver r) (compA v),
                   compB := map_option (deliver r) (compB v)\<rparr>)
          (filter (\<lambda>r. room_id r = rid) (table w)) w"

definition create_step :: "world \<Rightarrow> string \<Rightarrow> string \<Rightarrow> string \<Rightarrow> nat \<Rightarrow> world" where
  "create_step w usr gameType rid now =
     (case createRoom games_init (table w) (Some usr) gameType rid now of
        (g, tbl) \<Rightarrow> w\<lparr>table := tbl, compA := render (Some usr) g\<rparr>)"

text \<open>
  The join step runs \<^verbatim>\<open>joinRoom\<close> on the conditional update of the spec, so that the
  worlds follow a room through its games as the handlers are written to play them. On
  the datastore of the repository the request of \<^verbatim>\<open>joinRoom\<close> is refused and no room
  gets a second player.
\<close>

definition join_step :: "world \<Rightarrow> string \<Rightarrow> GameRoom \<Rightarrow> world" where
  "join_step w usr room =
     (case joinRoom conditional_update_single
             (games_init\<lparr>availableRooms := listOpenRooms (table w)\<rparr>)
             (table w) (Some usr) room of
        (g, tbl) \<Rightarrow>
          (case activeGame g of
             None \<Rightarrow> w\<lparr>table := tbl\<rparr>
           | Some data \<Rightarrow>
               w\<lparr>table := tbl, compA := map_option (deliver data) (compA w),
                 compB := render (Some usr) g\<rparr>))"

definition comp_of :: "world \<Rightarrow> bool \<Rightarrow> component option" where
  "comp_of w creator = (if creator then compA w else compB w)"

definition set_comp :: "world \<Rightarrow> bool \<Rightarrow> component \<Rightarrow> world" where
  "set_comp w creator c = (if creator then w\<lparr>compA := Some c\<rparr> else w\<lparr>compB := Some c\<rparr>)"

definition click_step :: "world \<Rightarrow> bool \<Rightarrow> nat \<Rightarrow> nat \<Rightarrow> world" where
  "click_step w creator index now =
     (case comp_of w creator of
        Some (TTT c) \<Rightarrow>
          (case handleClick c index now of
             None \<Rightarrow> w
           | Some u \<Rightarrow>
               notify (w\<lparr>table := db_update (table w) (room_id (t_gameRoom c)) u\<rparr>)
                      (room_id (t_gameRoom c)))
      | _ \<Rightarrow> w)"

definition choose_step :: "world \<Rightarrow> bool \<Rightarrow> string \<Rightarrow> nat \<Rightarrow> world" where
  "choose_step w creator choice now =
     (case comp_of w creator of
        Some (RPS c) \<Rightarrow>
          (case makeChoice c choice now of
             (c', None) \<Rightarrow> set_comp w creator (RPS c')
           | (c', Some u) \<Rightarrow>
               notify ((set_comp w creator (RPS c'))
                          \<lparr>table := db_update (table w) (room_id (r_gameRoom c)) u\<rparr>)
                      (room_id (r_gameRoom c)))
      | _ \<Rightarrow> w)"

text \<open>
  The operations, with what the user interface allows: a room is created with one of
  the two buttons, joined from the list of open rooms, a cell is one of the nine
  rendered, a choice one of the three rendered, and the choices are rendered once
  \<^verbatim>\<open>gameState.player2_id\<close> is set (before that the component shows the waiting
  screen). A user identifier is not the empty string. The world follows one room: it is
  created once.
\<close>

datatype action =
    Create string string string nat
  | Join string GameRoom
  | Click bool nat nat
  | Choose bool string nat

fun enabled :: "world \<Rightarrow> action \<Rightarrow> bool" where
  "enabled w (Create usr gameType rid now) =
     (usr \<noteq> [] \<and> table w = []
      \<and> (gameType = ''tic_tac_toe'' \<or> gameType = ''rock_paper_scissors''))"
| "enabled w (Join usr room) = (usr \<noteq> [] \<and> room \<in> set (listOpenRooms (table w)))"
| "enabled w (Click creator index now) = (index < 9)"
| "enabled w (Choose creator choice now) =
     ((choice = ''rock'' \<or> choice = ''paper'' \<or> choice = ''scissors'')
      \<and> (case comp_of w creator of
            Some (RPS c) \<Rightarrow> truthy (player2_id (r_gameState c))
          | _ \<Rightarrow> False))"

fun step :: "world \<Rightarrow> action \<Rightarrow> world" where
  "step w (Create usr gameType rid now) = create_step w usr gameType rid now"
| "step w (Join usr room) = join_step w usr room"
| "step w (Click creator index now) = click_step w creator index now"
| "step w (Choose creator choice now) = choose_step w creator choice now"

inductive reachable :: "world \<Rightarrow> bool" where
  start: "reachable world_init"
| next_step: "reachable w \<Longrightarrow> enabled w a \<Longrightarrow> reachable (step w a)"

fun run :: "world \<Rightarrow> action list \<Rightarrow> world" where
  "run w [] = w"
| "run w (a # as) = run (step w a) as"

section \<open>Notions used in the statements\<close>

text \<open>
  The eight lines of the game, stated on the grid and not on the table \<open>lines\<close> of the
  code. The board is stored row by row (the component renders the nine cells in a grid
  of three columns): the cell in row \<open>row\<close> and column \<open>col\<close> is cell \<open>3 * row + col\<close>.
\<close>

definition grid :: "cell list \<Rightarrow> nat \<Rightarrow> nat \<Rightarrow> cell" where
  "grid b row col = cell_at b (3 * row + col)"

text \<open>\<open>line_of b s\<close>: one of the three rows, of the three columns or of the two diagonals
  holds the symbol \<open>s\<close> in its three cells.\<close>

definition line_of :: "cell list \<Rightarrow> string \<Rightarrow> bool" where
  "line_of b s = (s \<noteq> [] \<and>
     ((\<exists>row \<in> {0, 1, 2}. \<forall>col \<in> {0, 1, 2}. grid b row col = Str s)
      \<or> (\<exists>col \<in> {0, 1, 2}. \<forall>row \<in> {0, 1, 2}. grid b row col = Str s)
      \<or> (\<forall>k \<in> {0, 1, 2}. grid b k k = Str s)
      \<or> (\<forall>k \<in> {0, 1, 2}. grid b k (2 - k) = Str s)))"

text \<open>Three equal non-empty cells, and \<open>has_line b\<close>: some row, column or diagonal holds
  three equal non-empty cells.\<close>

definition same3 :: "cell \<Rightarrow> cell \<Rightarrow> cell \<Rightarrow> bool" where
  "same3 x y z = (truthy_cell x \<and> x = y \<and> x = z)"

definition has_line :: "cell list \<Rightarrow> bool" where
  "has_line b =
     ((\<exists>row \<in> {0, 1, 2}. same3 (grid b row 0) (grid b row 1) (grid b row 2))
      \<or> (\<exists>col \<in> {0, 1, 2}. same3 (grid b 0 col) (grid b 1 col) (grid b 2 col))
      \<or> same3 (grid b 0 0) (grid b 1 1) (grid b 2 2)
      \<or> same3 (grid b 0 2) (grid b 1 1) (grid b 2 0))"

text \<open>The board and the turn marker a row stands for: the component reads
  \<^verbatim>\<open>game_state.board\<close> and
  \<^verbatim>\<open>game_state.currentTurn || 'X'\<close> when a board is present, and
  starts from nine empty cells with X to move otherwise.\<close>

definition pboard :: "GameRoom \<Rightarrow> cell list" where
  "pboard r = (case board (game_state r) of None \<Rightarrow> replicate 9 Null | Some b \<Rightarrow> b)"

definition pturn :: "GameRoom \<Rightarrow> string" where
  "pturn r = (case board (game_state r) of None \<Rightarrow> ''X''
              | Some b \<Rightarrow> or_X (currentTurn (game_state r)))"

text \<open>The player a symbol belongs to: X is the creating player, O the joining one.\<close>

definition owner :: "GameRoom \<Rightarrow> string \<Rightarrow> string option" where
  "owner r s = (if s = ''X'' then Some (player1_id r)
                else if s = ''O'' then player2_id r else None)"

text \<open>All nine cells are marked.\<close>

definition full :: "cell list \<Rightarrow> bool" where
  "full b = (length b = 9 \<and> list_all truthy_cell b)"

text \<open>The terminal check of the row's game type finds a winner: a line on the board, or two
  different choices.\<close>

definition decisive :: "GameRoom \<Rightarrow> bool" where
  "decisive r =
     (if game_type r = ''tic_tac_toe'' then has_line (pboard r)
      else (case (player1Choice (game_state r), player2Choice (game_state r)) of
              (Some a, Some b) \<Rightarrow> a \<noteq> b
            | _ \<Rightarrow> False))"

text \<open>The other symbol.\<close>

definition flip :: "string \<Rightarrow> string" where
  "flip t = (if t = ''X'' then ''O'' else ''X'')"

text \<open>The user of a Tic-Tac-Toe component is one of the two players of the row.\<close>

definition participant :: "GameRoom \<Rightarrow> TicTacToe \<Rightarrow> bool" where
  "participant r c =
     (t_user c = Some (player1_id r)
      \<or> (\<exists>b. player2_id r = Some b \<and> t_user c = Some b \<and> player2_id (t_gameRoom c) = Some b))"

text \<open>The symbol of the other side, as the component derives its own from
  \<^verbatim>\<open>isPlayer1\<close>.\<close>

definition opponentSymbol :: "TicTacToe \<Rightarrow> string" where
  "opponentSymbol c = (if t_isPlayer1 c then ''O'' else ''X'')"

text \<open>The choice slot of the creating (\<open>True\<close>) or of the joining player in
  \<^verbatim>\<open>game_state\<close>, and its update.\<close>

definition slot :: "bool \<Rightarrow> game_state_t \<Rightarrow> string option" where
  "slot creator gs = (if creator then player1Choice gs else player2Choice gs)"

definition set_slot :: "bool \<Rightarrow> string \<Rightarrow> game_state_t \<Rightarrow> game_state_t" where
  "set_slot creator ch gs =
     (if creator then gs\<lparr>player1Choice := Some ch\<rparr> else gs\<lparr>player2Choice := Some ch\<rparr>)"

text \<open>The cyclic dominance of the three choices.\<close>

definition beats :: "string \<Rightarrow> string \<Rightarrow> bool" where
  "beats a b = ((a = ''rock'' \<and> b = ''scissors'') \<or> (a = ''scissors'' \<and> b = ''paper'')
                \<or> (a = ''paper'' \<and> b = ''rock''))"

text \<open>The row an insert creates, and a row after a successful join.\<close>

definition fresh_room :: "string \<Rightarrow> string \<Rightarrow> string \<Rightarrow> nat \<Rightarrow> GameRoom" where
  "fresh_room rid gt usr now =
     \<lparr>room_id = rid, game_type = gt, player1_id = usr, player2_id = None,
      game_state = empty_game_state, status = ''waiting'', winner_id = None,
      created_at = now, completed_at = None\<rparr>"

definition joined :: "GameRoom \<Rightarrow> string \<Rightarrow> GameRoom" where
  "joined r usr = r\<lparr>player2_id := Some usr, status := ''in_progress''\<rparr>"

text \<open>Every action of a run is enabled in the world it is taken in.\<close>

fun all_enabled :: "world \<Rightarrow> action list \<Rightarrow> bool" where
  "all_enabled w [] = True"
| "all_enabled w (a # as) = (enabled w a \<and> all_enabled (step w a) as)"

text \<open>The choices, status and winner of every row of the table; the boards of every row.\<close>

definition outcome :: "world \<Rightarrow> (string option \<times> string option \<times> string \<times> string option) list" where
  "outcome w = map (\<lambda>r. (player1Choice (game_state r), player2Choice (game_state r),
                          status r, winner_id r)) (table w)"

definition marks :: "GameRoom list \<Rightarrow> cell list list" where
  "marks tbl = map pboard tbl"

section \<open>The invariant of the reachable worlds\<close>

text \<open>A cell of a stored board is empty or holds one of the two symbols.\<close>

definition valid_cell :: "cell \<Rightarrow> bool" where
  "valid_cell x = (x = Null \<or> x = Str ''X'' \<or> x = Str ''O'')"

text \<open>A Tic-Tac-Toe row: nine valid cells, a turn marker, no board before the first move, no
  line while the game is in progress, and a winner only with a line.\<close>

definition ttt_room_inv :: "GameRoom \<Rightarrow> bool" where
  "ttt_room_inv r =
     (length (pboard r) = 9 \<and> list_all valid_cell (pboard r)
      \<and> (pturn r = ''X'' \<or> pturn r = ''O'')
      \<and> (status r = ''waiting'' \<longrightarrow> board (game_state r) = None \<and> winner_id r = None)
      \<and> (status r = ''in_progress'' \<longrightarrow> checkWinner (pboard r) = Null \<and> winner_id r = None)
      \<and> (winner_id r \<noteq> None \<longrightarrow> truthy_cell (checkWinner (pboard r)) \<and> truthy (winner_id r)))"

text \<open>A Tic-Tac-Toe component holds the current row: its copy, board, turn marker and winner
  are those of the row.\<close>

definition ttt_sync :: "GameRoom \<Rightarrow> TicTacToe \<Rightarrow> bool" where
  "ttt_sync r c =
     (t_gameState c = r \<and> t_board c = pboard r \<and> t_currentTurn c = pturn r
      \<and> truthy (t_winner c) = (winner_id r \<noteq> None)
      \<and> room_id (t_gameRoom c) = room_id r \<and> player1_id (t_gameRoom c) = player1_id r)"

text \<open>A choice slot is empty or holds one of the three choices.\<close>

definition valid_choice :: "string option \<Rightarrow> bool" where
  "valid_choice v = (v = None \<or> v = Some ''rock'' \<or> v = Some ''paper'' \<or> v = Some ''scissors'')"

text \<open>A Rock-Paper-Scissors row: no choice while waiting, at most one while in progress, both
  when completed, and a winner only for different choices.\<close>

definition rps_room_inv :: "GameRoom \<Rightarrow> bool" where
  "rps_room_inv r =
     (valid_choice (player1Choice (game_state r)) \<and> valid_choice (player2Choice (game_state r))
      \<and> (status r = ''waiting'' \<longrightarrow>
            player1Choice (game_state r) = None \<and> player2Choice (game_state r) = None)
      \<and> (status r = ''in_progress'' \<longrightarrow>
            player1Choice (game_state r) = None \<or> player2Choice (game_state r) = None)
      \<and> (status r = ''completed'' \<longrightarrow>
            player1Choice (game_state r) \<noteq> None \<and> player2Choice (game_state r) \<noteq> None)
      \<and> (winner_id r \<noteq> None \<longrightarrow>
            player1Choice (game_state r) \<noteq> player2Choice (game_state r)))"

text \<open>A Rock-Paper-Scissors component holds the current row, and its own choice is its slot of
  the row.\<close>

definition rps_sync :: "GameRoom \<Rightarrow> RockPaperScissors \<Rightarrow> bool \<Rightarrow> bool" where
  "rps_sync r c creator =
     (r_gameState c = r \<and> room_id (r_gameRoom c) = room_id r
      \<and> player1_id (r_gameRoom c) = player1_id r
      \<and> r_myChoice c = (if creator then player1Choice (game_state r)
                         else player2Choice (game_state r)))"

text \<open>A row: the creating player is a user, the status is one of the three, the row waits
  exactly as long as no one has joined, the joining player is another user, and a winner
  is recorded on completed rows only.\<close>

definition row_inv :: "GameRoom \<Rightarrow> bool" where
  "row_inv r =
     (player1_id r \<noteq> []
      \<and> (status r = ''waiting'' \<or> status r = ''in_progress'' \<or> status r = ''completed'')
      \<and> ((status r = ''waiting'') = (player2_id r = None))
      \<and> (\<forall>b. player2_id r = Some b \<longrightarrow> b \<noteq> [] \<and> b \<noteq> player1_id r)
      \<and> (winner_id r \<noteq> None \<longrightarrow> status r = ''completed'')
      \<and> (if game_type r = ''tic_tac_toe'' then ttt_room_inv r
          else game_type r = ''rock_paper_scissors'' \<and> rps_room_inv r))"

text \<open>The component of the creating player: mounted for the row's game type with the row as it
  was created, so the \<^verbatim>\<open>player2_id\<close> of its
  \<^verbatim>\<open>gameRoom\<close> prop is null.\<close>

definition compA_ok :: "GameRoom \<Rightarrow> component option \<Rightarrow> bool" where
  "compA_ok r cA =
     (case cA of
        None \<Rightarrow> False
      | Some (TTT c) \<Rightarrow>
          game_type r = ''tic_tac_toe'' \<and> t_user c = Some (player1_id r) \<and> ttt_sync r c
          \<and> player2_id (t_gameRoom c) = None
      | Some (RPS c) \<Rightarrow>
          game_type r = ''rock_paper_scissors'' \<and> r_user c = Some (player1_id r)
          \<and> rps_sync r c True \<and> player2_id (r_gameRoom c) = None)"

text \<open>The component of the joining player: mounted once the row has a second player, with the
  row as returned by the join.\<close>

definition compB_ok :: "GameRoom \<Rightarrow> component option \<Rightarrow> bool" where
  "compB_ok r cB =
     (case player2_id r of
        None \<Rightarrow> cB = None
      | Some b \<Rightarrow>
          (case cB of
             None \<Rightarrow> False
           | Some (TTT c) \<Rightarrow>
               game_type r = ''tic_tac_toe'' \<and> t_user c = Some b
               \<and> player2_id (t_gameRoom c) = Some b \<and> ttt_sync r c
           | Some (RPS c) \<Rightarrow>
               game_type r = ''rock_paper_scissors'' \<and> r_user c = Some b
               \<and> player2_id (r_gameRoom c) = Some b \<and> rps_sync r c False))"

text \<open>The invariant of the reachable worlds.\<close>

definition inv :: "world \<Rightarrow> bool" where
  "inv w =
     (case table w of
        [] \<Rightarrow> compA w = None \<and> compB w = None
      | [r] \<Rightarrow> row_inv r \<and> compA_ok r (compA w) \<and> compB_ok r (compB w)
      | _ \<Rightarrow> False)"

section \<open>Example rows, components and runs\<close>

text \<open>Two users \<open>A\<close> and \<open>B\<close>, a Tic-Tac-Toe room \<open>r1\<close> and a
  Rock-Paper-Scissors room \<open>r2\<close> created by \<open>A\<close>, and the
  rows, component states and writes the examples below evaluate.\<close>

definition ttt_room0 :: GameRoom where
  "ttt_room0 = \<lparr>room_id = ''r1'', game_type = ''tic_tac_toe'', player1_id = ''A'',
      player2_id = None, game_state = empty_game_state, status = ''waiting'',
      winner_id = None, created_at = 0, completed_at = None\<rparr>"

definition ttt_moves :: "action list" where
  "ttt_moves = [Create ''A'' ''tic_tac_toe'' ''r1'' 0, Join ''B'' ttt_room0,
                Click True 0 1, Click False 4 2, Click True 1 3, Click False 3 4]"

definition ttt_before_win :: world where
  "ttt_before_win = run world_init ttt_moves"

definition ttt_row4 :: GameRoom where
  "ttt_row4 = \<lparr>room_id = ''r1'', game_type = ''tic_tac_toe'', player1_id = ''A'',
      player2_id = Some ''B'',
      game_state = \<lparr>board = Some [Str ''X'', Str ''X'', Null, Str ''O'', Str ''O'', Null,
                                   Null, Null, Null],
                      currentTurn = Some ''X'', player1Choice = None, player2Choice = None\<rparr>,
      status = ''in_progress'', winner_id = None, created_at = 0, completed_at = None\<rparr>"

definition creator_view :: TicTacToe where
  "creator_view = \<lparr>t_user = Some ''A'', t_gameRoom = ttt_room0,
      t_board = [Str ''X'', Str ''X'', Null, Str ''O'', Str ''O'', Null, Null, Null, Null],
      t_currentTurn = ''X'', t_winner = None, t_gameState = ttt_row4\<rparr>"

definition winning_write :: updates where
  "winning_write = \<lparr>u_game_state =
       Some \<lparr>board = Some [Str ''X'', Str ''X'', Str ''X'', Str ''O'', Str ''O'', Null,
                           Null, Null, Null],
             currentTurn = Some ''O'', player1Choice = None, player2Choice = None\<rparr>,
     u_status = Some ''completed'', u_winner_id = Some (Some ''A''),
     u_completed_at = Some 5\<rparr>"

definition rps_room0 :: GameRoom where
  "rps_room0 = \<lparr>room_id = ''r2'', game_type = ''rock_paper_scissors'', player1_id = ''A'',
      player2_id = None, game_state = empty_game_state, status = ''waiting'',
      winner_id = None, created_at = 0, completed_at = None\<rparr>"

definition rps_joined :: world where
  "rps_joined = run world_init
     [Create ''A'' ''rock_paper_scissors'' ''r2'' 0, Join ''B'' rps_room0]"

definition rps_creator_loses :: world where
  "rps_creator_loses = run rps_joined [Choose False ''rock'' 1, Choose True ''scissors'' 2]"

definition rps_joiner_loses :: world where
  "rps_joiner_loses = run rps_joined [Choose True ''rock'' 1, Choose False ''scissors'' 2]"

definition ttt_joined :: world where
  "ttt_joined = run world_init [Create ''A'' ''tic_tac_toe'' ''r1'' 0, Join ''B'' ttt_room0]"

definition ttt_drawn :: world where
  "ttt_drawn = run ttt_joined
     [Click True 0 1, Click False 1 2, Click True 2 3, Click False 4 4, Click True 3 5,
      Click False 5 6, Click True 7 7, Click False 6 8, Click True 8 9]"

definition ttt_draw_row :: GameRoom where
  "ttt_draw_row = \<lparr>room_id = ''r1'', game_type = ''tic_tac_toe'', player1_id = ''A'',
      player2_id = Some ''B'',
      game_state = \<lparr>board = Some [Str ''X'', Str ''O'', Str ''X'', Str ''X'', Str ''O'',
                                   Str ''O'', Str ''O'', Str ''X'', Str ''X''],
                      currentTurn = Some ''O'', player1Choice = None, player2Choice = None\<rparr>,
      status = ''completed'', winner_id = None, created_at = 0, completed_at = Some 9\<rparr>"

definition rps_drawn :: world where
  "rps_drawn = run rps_joined [Choose True ''rock'' 1, Choose False ''rock'' 2]"

definition rps_draw_row :: GameRoom where
  "rps_draw_row = \<lparr>room_id = ''r2'', game_type = ''rock_paper_scissors'', player1_id = ''A'',
      player2_id = Some ''B'',
      game_state = \<lparr>board = None, currentTurn = None, player1Choice = Some ''rock'',
                      player2Choice = Some ''rock''\<rparr>,
      status = ''completed'', winner_id = None, created_at = 0, completed_at = Some 2\<rparr>"

definition stats0 :: "string \<rightharpoonup> stats_row" where
  "stats0 = [''A'' \<mapsto> \<lparr>games_played = 3, games_won = 1\<rparr>]"

definition rps_row_joined :: GameRoom where
  "rps_row_joined = \<lparr>room_id = ''r2'', game_type = ''rock_paper_scissors'',
      player1_id = ''A'', player2_id = Some ''B'', game_state = empty_game_state,
      status = ''in_progress'', winner_id = None, created_at = 0, completed_at = None\<rparr>"

definition rps_creator_view :: RockPaperScissors where
  "rps_creator_view = \<lparr>r_user = Some ''A'', r_gameRoom = rps_room0, r_myChoice = None,
      r_gameState = rps_row_joined, r_result = None\<rparr>"

definition rps_joiner_view :: RockPaperScissors where
  "rps_joiner_view = \<lparr>r_user = Some ''B'', r_gameRoom = rps_row_joined, r_myChoice = None,
      r_gameState = rps_row_joined, r_result = None\<rparr>"

definition rock_write :: updates where
  "rock_write = \<lparr>u_game_state =
       Some \<lparr>board = None, currentTurn = None, player1Choice = Some ''rock'',
             player2Choice = None\<rparr>,
     u_status = None, u_winner_id = None, u_completed_at = None\<rparr>"

definition stale_paper_write :: updates where
  "stale_paper_write = \<lparr>u_game_state =
       Some \<lparr>board = None, currentTurn = None, player1Choice = None,
             player2Choice = Some ''paper''\<rparr>,
     u_status = None, u_winner_id = None, u_completed_at = None\<rparr>"

definition ttt_row_joined :: GameRoom where
  "ttt_row_joined = \<lparr>room_id = ''r1'', game_type = ''tic_tac_toe'', player1_id = ''A'',
      player2_id = Some ''B'', game_state = empty_game_state, status = ''in_progress'',
      winner_id = None, created_at = 0, completed_at = None\<rparr>"

definition ttt_creator_start :: TicTacToe where
  "ttt_creator_start = \<lparr>t_user = Some ''A'', t_gameRoom = ttt_room0,
      t_board = [Null, Null, Null, Null, Null, Null, Null, Null, Null],
      t_currentTurn = ''X'', t_winner = None, t_gameState = ttt_row_joined\<rparr>"

definition click0_write :: updates where
  "click0_write = \<lparr>u_game_state =
       Some \<lparr>board = Some [Str ''X'', Null, Null, Null, Null, Null, Null, Null, Null],
             currentTurn = Some ''O'', player1Choice = None, player2Choice = None\<rparr>,
     u_status = None, u_winner_id = None, u_completed_at = None\<rparr>"

definition click1_write :: updates where
  "click1_write = \<lparr>u_game_state =
       Some \<lparr>board = Some [Null, Str ''X'', Null, Null, Null, Null, Null, Null, Null],
             currentTurn = Some ''O'', player1Choice = None, player2Choice = None\<rparr>,
     u_status = None, u_winner_id = None, u_completed_at = None\<rparr>"

definition two_rooms :: "GameRoom list" where
  "two_rooms = [rps_room0, ttt_room0]"

text \<open>The component of the joining player B when the room is joined, and when four moves have
  been played.\<close>

definition ttt_joiner_start :: TicTacToe where
  "ttt_joiner_start = ttt_mount (Some ''B'') ttt_row_joined"

definition joiner_view :: TicTacToe where
  "joiner_view = creator_view\<lparr>t_user := Some ''B'', t_gameRoom := ttt_row_joined\<rparr>"

text \<open>Writes of moves on the board X X - / O O - / - - -: X in cell 5, X in cell 8, and, on
  that board with X in cell 8, O in cell 5, which completes the middle row.\<close>

definition late_write :: updates where
  "late_write = \<lparr>u_game_state =
       Some \<lparr>board = Some [Str ''X'', Str ''X'', Null, Str ''O'', Str ''O'', Str ''X'',
                           Null, Null, Null],
             currentTurn = Some ''O'', player1Choice = None, player2Choice = None\<rparr>,
     u_status = None, u_winner_id = None, u_completed_at = None\<rparr>"

definition corner_write :: updates where
  "corner_write = \<lparr>u_game_state =
       Some \<lparr>board = Some [Str ''X'', Str ''X'', Null, Str ''O'', Str ''O'', Null,
                           Null, Null, Str ''X''],
             currentTurn = Some ''O'', player1Choice = None, player2Choice = None\<rparr>,
     u_status = None, u_winner_id = None, u_completed_at = None\<rparr>"

definition joiner_win_write :: updates where
  "joiner_win_write = \<lparr>u_game_state =
       Some \<lparr>board = Some [Str ''X'', Str ''X'', Null, Str ''O'', Str ''O'', Str ''O'',
                           Null, Null, Str ''X''],
             currentTurn = Some ''X'', player1Choice = None, player2Choice = None\<rparr>,
     u_status = Some ''completed'', u_winner_id = Some (Some ''B''),
     u_completed_at = Some 6\<rparr>"

text \<open>The write of O in cell 1 on the board with X in cell 0.\<close>

definition reply1_write :: updates where
  "reply1_write = \<lparr>u_game_state =
       Some \<lparr>board = Some [Str ''X'', Str ''O'', Null, Null, Null, Null, Null, Null, Null],
             currentTurn = Some ''X'', player1Choice = None, player2Choice = None\<rparr>,
     u_status = None, u_winner_id = None, u_completed_at = None\<rparr>"

section \<open>The win-rate display of \<open>Games\<close>\<close>

text \<open>The statistics card shows
  \<open>stats.played > 0 ? Math.round((stats.won / stats.played) * 100) : 0\<close>. The operands are
  JavaScript numbers, so the quotient and the product are each rounded to binary64 (round to
  nearest, ties to even). Numbers are modelled as rationals and every arithmetic result passes
  through \<open>fl\<close>. The exponent range is not modelled: the counters are 32-bit integer columns,
  far from overflow and from the subnormal range.

  \<open>expo x\<close> is the binary exponent of a positive \<open>x\<close>: \<open>2 powi expo x \<le> x < 2 powi (expo x + 1)\<close>.\<close>

definition expo :: "rat \<Rightarrow> int" where
  "expo x = (if 1 \<le> x then bitlen \<lfloor>x\<rfloor> - 1 else - bitlen (\<lceil>1 / x\<rceil> - 1))"

text \<open>Rounding a rational to the nearest integer, ties to the even one.\<close>

definition round_even :: "rat \<Rightarrow> int" where
  "round_even m =
     (let f = \<lfloor>m\<rfloor>; d = m - of_int f
      in if d < 1 / 2 then f else if 1 / 2 < d then f + 1
         else if even f then f else f + 1)"

text \<open>Rounding to a 53-bit significand: the value is scaled so that its integer part has 53
  bits, rounded to an integer, and scaled back.\<close>

definition fl :: "rat \<Rightarrow> rat" where
  "fl x =
     (if x = 0 then 0
      else let q = 2 powi (expo \<bar>x\<bar> - 52)
           in (if x < 0 then - 1 else 1) * of_int (round_even (\<bar>x\<bar> / q)) * q)"

text \<open>The division operator. JavaScript does not raise on a zero divisor; the model returns
  \<open>None\<close> there, so that a result \<open>Some\<close> records that no division by zero was evaluated.\<close>

definition js_div :: "rat \<Rightarrow> rat \<Rightarrow> rat option" where
  "js_div a b = (if b = 0 then None else Some (fl (a / b)))"

text \<open>\<open>Math.round\<close>: the nearest integer, halves towards plus infinity, computed exactly on
  the value of its argument.\<close>

definition Math_round :: "rat \<Rightarrow> int" where
  "Math_round x = \<lfloor>x + 1 / 2\<rfloor>"

text \<open>The displayed percentage for \<open>stats = {played, won}\<close>.\<close>

definition winRate :: "int \<Rightarrow> int \<Rightarrow> int option" where
  "winRate played won =
     (if 0 < played
      then map_option (\<lambda>q. Math_round (fl (q * 100))) (js_div (of_int won) (of_int played))
      else Some 0)"

text \<open>The percentage in exact arithmetic, \<open>100 * won / played\<close> rounded to the nearest
  integer with halves up, and the pairs whose exact percentage is halfway between two
  integers.\<close>

definition exact_percent :: "int \<Rightarrow> int \<Rightarrow> int" where
  "exact_percent played won = \<lfloor>100 * (of_int won :: rat) / of_int played + 1 / 2\<rfloor>"

definition halfway :: "int \<Rightarrow> int \<Rightarrow> bool" where
  "halfway played won = ((200 * won + played) mod (2 * played) = 0)"

section \<open>Proofs\<close>

lemma cell_at_update:
  "cell_at (xs[i := v]) j = (if j = i \<and> i < length xs then v else cell_at xs j)"
  by (simp add: cell_at_def)

lemma arr_set_in_range: "i < length xs \<Longrightarrow> arr_set xs i v = xs[i := v]"
  by (simp add: arr_set_def)

lemma checkLines_Null_or_truthy:
  "\<not> truthy_cell (checkLines b ls) \<Longrightarrow> checkLines b ls = Null"
  by (induction ls) (auto split: if_splits)

lemma checkLines_truthy_iff:
  "truthy_cell (checkLines b ls) \<longleftrightarrow>
     (\<exists>(x, y, z) \<in> set ls.
        truthy_cell (cell_at b x) \<and> cell_at b x = cell_at b y \<and> cell_at b x = cell_at b z)"
  by (induction ls) auto

lemma checkLines_is_line:
  "truthy_cell (checkLines b ls) \<Longrightarrow>
     \<exists>(x, y, z) \<in> set ls. cell_at b x = checkLines b ls \<and> cell_at b y = checkLines b ls
        \<and> cell_at b z = checkLines b ls"
  by (induction ls) (auto split: if_splits)

lemma checkLines_new_mark:
  "checkLines b ls = Null \<Longrightarrow> \<not> truthy_cell (cell_at b i) \<Longrightarrow> i < length b \<Longrightarrow>
   truthy_cell (checkLines (b[i := v]) ls) \<Longrightarrow> checkLines (b[i := v]) ls = v"
proof (induction ls)
  case Nil
  then show ?case by simp
next
  case (Cons l ls)
  obtain x y z where l: "l = (x, y, z)" by (cases l) auto
  show ?case
  proof (cases "truthy_cell (cell_at (b[i := v]) x) \<and> cell_at (b[i := v]) x = cell_at (b[i := v]) y
                 \<and> cell_at (b[i := v]) x = cell_at (b[i := v]) z")
    case True
    have old: "\<not> (truthy_cell (cell_at b x) \<and> cell_at b x = cell_at b y \<and> cell_at b x = cell_at b z)"
      using Cons.prems(1) l by (auto split: if_splits)
    have "x = i \<or> y = i \<or> z = i"
      using True old by (auto simp: cell_at_update split: if_splits)
    then have "cell_at (b[i := v]) x = v"
      using True Cons.prems(3) by (auto simp: cell_at_update split: if_splits)
    then show ?thesis using True l by auto
  next
    case False
    have "checkLines (b[i := v]) (l # ls) = checkLines (b[i := v]) ls"
      unfolding l checkLines.simps using False by (rule if_not_P)
    moreover have "checkLines b ls = Null"
      using Cons.prems(1) l by (auto split: if_splits)
    ultimately show ?thesis using Cons.IH Cons.prems by simp
  qed
qed

lemma inv_init: "inv world_init"
  by (simp add: inv_def world_init_def)

lemma checkWinner_empty: "checkWinner (replicate 9 Null) = Null"
  by (simp add: checkWinner_def lines_def cell_at_def)

lemma create_step_eq:
  assumes "enabled w (Create usr gt rid now)"
  shows "create_step w usr gt rid now =
     w\<lparr>table := [fresh_room rid gt usr now],
       compA := (if gt = ''tic_tac_toe'' then Some (TTT (ttt_mount (Some usr) (fresh_room rid gt usr now)))
                 else Some (RPS (rps_mount (Some usr) (fresh_room rid gt usr now))))\<rparr>"
  using assms
  by (auto simp: create_step_def createRoom_def db_insert_def games_init_def render_def fresh_room_def
      Let_def)

lemma pboard_fresh: "pboard (fresh_room rid gt usr now) = replicate 9 Null"
  by (simp add: pboard_def fresh_room_def empty_game_state_def)

lemma pturn_fresh: "pturn (fresh_room rid gt usr now) = ''X''"
  by (simp add: pturn_def fresh_room_def empty_game_state_def)

lemma ttt_room_inv_fresh: "ttt_room_inv (fresh_room rid gt usr now)"
  unfolding ttt_room_inv_def pboard_fresh pturn_fresh
  by (simp add: fresh_room_def empty_game_state_def valid_cell_def list_all_iff checkWinner_empty)

lemma rps_room_inv_fresh: "rps_room_inv (fresh_room rid gt usr now)"
  by (simp add: rps_room_inv_def fresh_room_def empty_game_state_def valid_choice_def)

lemma row_inv_fresh:
  "usr \<noteq> [] \<Longrightarrow> gt = ''tic_tac_toe'' \<or> gt = ''rock_paper_scissors'' \<Longrightarrow>
   row_inv (fresh_room rid gt usr now)"
  unfolding row_inv_def using ttt_room_inv_fresh rps_room_inv_fresh
  by (auto simp: fresh_room_def)

lemma ttt_mount_fresh:
  "ttt_mount u (fresh_room rid gt usr now) =
     \<lparr>t_user = u, t_gameRoom = fresh_room rid gt usr now, t_board = replicate 9 Null,
      t_currentTurn = ''X'', t_winner = None, t_gameState = fresh_room rid gt usr now\<rparr>"
  by (simp add: ttt_mount_def fresh_room_def empty_game_state_def)

lemma rps_mount_fresh:
  "rps_mount u (fresh_room rid gt usr now) =
     \<lparr>r_user = u, r_gameRoom = fresh_room rid gt usr now, r_myChoice = None,
      r_gameState = fresh_room rid gt usr now, r_result = None\<rparr>"
  by (simp add: rps_mount_def fresh_room_def empty_game_state_def truthy_def)

lemma inv_create:
  assumes "inv w" "enabled w (Create usr gt rid now)"
  shows "inv (create_step w usr gt rid now)"
proof -
  have e: "usr \<noteq> []" "gt = ''tic_tac_toe'' \<or> gt = ''rock_paper_scissors''"
    using assms(2) by auto
  have a: "compA_ok (fresh_room rid gt usr now)
             (if gt = ''tic_tac_toe'' then Some (TTT (ttt_mount (Some usr) (fresh_room rid gt usr now)))
              else Some (RPS (rps_mount (Some usr) (fresh_room rid gt usr now))))"
  proof (cases "gt = ''tic_tac_toe''")
    case True
    have "ttt_sync (fresh_room rid gt usr now) (ttt_mount (Some usr) (fresh_room rid gt usr now))"
      unfolding ttt_mount_fresh by (simp add: ttt_sync_def pboard_fresh pturn_fresh truthy_def)
        (simp add: fresh_room_def)
    moreover have "t_user (ttt_mount (Some usr) (fresh_room rid gt usr now)) = Some usr"
      unfolding ttt_mount_fresh by simp
    moreover have "player1_id (fresh_room rid gt usr now) = usr"
      "game_type (fresh_room rid gt usr now) = gt"
      "player2_id (t_gameRoom (ttt_mount (Some usr) (fresh_room rid gt usr now))) = None"
      unfolding ttt_mount_fresh by (simp_all add: fresh_room_def)
    ultimately show ?thesis using True by (simp add: compA_ok_def)
  next
    case False
    then have g: "gt = ''rock_paper_scissors''" using e(2) by simp
    have "rps_sync (fresh_room rid gt usr now) (rps_mount (Some usr) (fresh_room rid gt usr now)) True"
      unfolding rps_mount_fresh by (simp add: rps_sync_def) (simp add: fresh_room_def empty_game_state_def)
    moreover have "r_user (rps_mount (Some usr) (fresh_room rid gt usr now)) = Some usr"
      unfolding rps_mount_fresh by simp
    moreover have "player1_id (fresh_room rid gt usr now) = usr"
      "game_type (fresh_room rid gt usr now) = gt"
      "player2_id (r_gameRoom (rps_mount (Some usr) (fresh_room rid gt usr now))) = None"
      unfolding rps_mount_fresh by (simp_all add: fresh_room_def)
    ultimately show ?thesis using False g by (simp add: compA_ok_def)
  qed
  have b: "compB w = None" "table w = []"
    using assms by (auto simp: inv_def)
  have c: "compB_ok (fresh_room rid gt usr now) None"
    by (simp add: compB_ok_def fresh_room_def)
  show ?thesis
    unfolding create_step_eq[OF assms(2)] inv_def
    using a b c row_inv_fresh[OF e] by simp
qed

lemma listOpenRooms_single:
  "listOpenRooms [r] = (if status r = ''waiting'' \<and> player2_id r = None then [r] else [])"
  by (simp add: listOpenRooms_def)

lemma listOpenRooms_Nil: "listOpenRooms [] = []"
  by (simp add: listOpenRooms_def)

lemma inv_table_cases:
  assumes "inv w"
  obtains "table w = []" "compA w = None" "compB w = None"
  | r where "table w = [r]" "row_inv r" "compA_ok r (compA w)" "compB_ok r (compB w)"
  using assms unfolding inv_def by (auto split: list.splits)

lemma enabled_join_row:
  assumes "inv w" "enabled w (Join usr room)"
  shows "table w = [room] \<and> status room = ''waiting'' \<and> player2_id room = None \<and> usr \<noteq> []"
  using assms(1)
proof (cases rule: inv_table_cases)
  case 1
  with assms(2) show ?thesis
    by (simp add: listOpenRooms_Nil)
next
  case (2 r)
  with assms(2) show ?thesis
    by (auto simp: listOpenRooms_single split: if_splits)
qed

lemma joinRoom_single:
  assumes "player2_id room = None" "player1_id room \<noteq> usr"
  shows "joinRoom conditional_update_single g [room] (Some usr) room =
           (g\<lparr>isJoining := Some (room_id room), activeGame := Some (joined room usr),
              selectedGameType := Some (game_type room), isJoining := None\<rparr>,
            [joined room usr])"
  using assms
  by (simp add: joinRoom_def truthy_def conditional_update_single_def update_single_def joined_def)

lemma joinRoom_own:
  assumes "player1_id room = usr"
  shows "joinRoom conditional_update_single g tbl (Some usr) room = (g\<lparr>alerts := alerts g @ [OwnRoomAlert]\<rparr>, tbl)"
  using assms by (simp add: joinRoom_def)

lemma join_step_eq:
  assumes "inv w" "enabled w (Join usr room)"
  shows "join_step w usr room =
     (if player1_id room = usr then w
      else w\<lparr>table := [joined room usr],
             compA := map_option (deliver (joined room usr)) (compA w),
             compB := (if game_type room = ''tic_tac_toe''
                       then Some (TTT (ttt_mount (Some usr) (joined room usr)))
                       else if game_type room = ''rock_paper_scissors''
                       then Some (RPS (rps_mount (Some usr) (joined room usr)))
                       else None)\<rparr>)"
proof (cases "player1_id room = usr")
  case True
  show ?thesis
    using True enabled_join_row[OF assms]
    by (simp add: join_step_def joinRoom_own games_init_def)
next
  case False
  show ?thesis
    using False enabled_join_row[OF assms]
    by (simp add: join_step_def joinRoom_single games_init_def render_def)
qed

lemma joined_simps [simp]:
  "room_id (joined r usr) = room_id r" "game_type (joined r usr) = game_type r"
  "player1_id (joined r usr) = player1_id r" "player2_id (joined r usr) = Some usr"
  "game_state (joined r usr) = game_state r" "status (joined r usr) = ''in_progress''"
  "winner_id (joined r usr) = winner_id r"
  by (simp_all add: joined_def)

lemma pboard_joined [simp]: "pboard (joined r usr) = pboard r"
  by (simp add: pboard_def)

lemma pturn_joined [simp]: "pturn (joined r usr) = pturn r"
  by (simp add: pturn_def split: option.splits)

lemma row_inv_joined:
  assumes "row_inv r" "status r = ''waiting''" "usr \<noteq> []" "player1_id r \<noteq> usr"
  shows "row_inv (joined r usr)"
proof -
  have t: "game_type r = ''tic_tac_toe'' \<Longrightarrow> ttt_room_inv (joined r usr)"
    using assms(1,2) unfolding row_inv_def ttt_room_inv_def
    by (auto simp: pboard_def checkWinner_empty)
  have p: "game_type r \<noteq> ''tic_tac_toe'' \<Longrightarrow> rps_room_inv (joined r usr)"
    using assms(1,2) unfolding row_inv_def rps_room_inv_def by auto
  show ?thesis
    using assms t p unfolding row_inv_def by auto
qed

lemma ttt_sync_deliver_joined:
  assumes "ttt_sync r c" "winner_id r = None" "board (game_state r) = None"
  shows "ttt_sync (joined r usr) (fst (ttt_on_update c (joined r usr)))"
  using assms by (simp add: ttt_sync_def ttt_on_update_def truthy_def)

lemma rps_sync_deliver_joined:
  assumes "rps_sync r c k"
  shows "rps_sync (joined r usr) (fst (rps_on_update c (joined r usr))) k"
  using assms by (simp add: rps_sync_def rps_on_update_def)

lemma waiting_facts:
  assumes "row_inv r" "status r = ''waiting''"
  shows "winner_id r = None"
    and "game_type r = ''tic_tac_toe'' \<Longrightarrow> board (game_state r) = None"
    and "game_type r \<noteq> ''tic_tac_toe'' \<Longrightarrow>
           player1Choice (game_state r) = None \<and> player2Choice (game_state r) = None"
  using assms unfolding row_inv_def ttt_room_inv_def rps_room_inv_def by auto

lemma ttt_on_update_props [simp]:
  "t_user (fst (ttt_on_update c r)) = t_user c"
  "t_gameRoom (fst (ttt_on_update c r)) = t_gameRoom c"
  by (simp_all add: ttt_on_update_def Let_def split: option.splits)

lemma rps_on_update_props [simp]:
  "r_user (fst (rps_on_update c r)) = r_user c"
  "r_gameRoom (fst (rps_on_update c r)) = r_gameRoom c"
  "r_myChoice (fst (rps_on_update c r)) = r_myChoice c"
  "r_gameState (fst (rps_on_update c r)) = r"
  by (simp_all add: rps_on_update_def determineWinner_def Let_def split: option.splits)

lemma compA_ok_joined:
  assumes "row_inv r" "status r = ''waiting''" "compA_ok r cA"
  shows "compA_ok (joined r usr) (map_option (deliver (joined r usr)) cA)"
proof (cases cA)
  case None
  with assms(3) show ?thesis by (simp add: compA_ok_def)
next
  case (Some comp)
  show ?thesis
  proof (cases comp)
    case (TTT c)
    with Some assms(3) have g: "game_type r = ''tic_tac_toe''" "t_user c = Some (player1_id r)"
      "ttt_sync r c" "player2_id (t_gameRoom c) = None" by (simp_all add: compA_ok_def)
    have "ttt_sync (joined r usr) (fst (ttt_on_update c (joined r usr)))"
      using ttt_sync_deliver_joined[OF g(3)] waiting_facts[OF assms(1,2)] g(1) by simp
    moreover have "t_user (fst (ttt_on_update c (joined r usr))) = t_user c"
      by (simp add: ttt_on_update_def Let_def split: option.splits)
    moreover have "room_id (t_gameRoom c) = room_id r"
      using g(3) by (simp add: ttt_sync_def)
    ultimately show ?thesis
      using Some TTT g by (simp add: compA_ok_def)
  next
    case (RPS c)
    with Some assms(3) have g: "game_type r = ''rock_paper_scissors''"
      "r_user c = Some (player1_id r)" "rps_sync r c True" "player2_id (r_gameRoom c) = None"
      by (simp_all add: compA_ok_def)
    have "rps_sync (joined r usr) (fst (rps_on_update c (joined r usr))) True"
      using rps_sync_deliver_joined[OF g(3)] .
    moreover have "r_user (fst (rps_on_update c (joined r usr))) = r_user c"
      by (simp add: rps_on_update_def)
    moreover have "room_id (r_gameRoom c) = room_id r"
      using g(3) by (simp add: rps_sync_def)
    ultimately show ?thesis
      using Some RPS g by (simp add: compA_ok_def)
  qed
qed

lemma compB_ok_joined:
  assumes "row_inv r" "status r = ''waiting''" "usr \<noteq> player1_id r"
  shows "compB_ok (joined r usr)
           (if game_type r = ''tic_tac_toe''
            then Some (TTT (ttt_mount (Some usr) (joined r usr)))
            else if game_type r = ''rock_paper_scissors''
            then Some (RPS (rps_mount (Some usr) (joined r usr)))
            else None)"
proof (cases "game_type r = ''tic_tac_toe''")
  case True
  have b: "board (game_state r) = None" "winner_id r = None"
    using waiting_facts[OF assms(1,2)] True by simp_all
  show ?thesis
    using True b
    by (simp add: compB_ok_def ttt_mount_def ttt_sync_def pboard_def pturn_def truthy_def)
next
  case False
  have g: "game_type r = ''rock_paper_scissors''"
    using assms(1) False by (simp add: row_inv_def)
  have b: "player1Choice (game_state r) = None" "player2Choice (game_state r) = None"
    using waiting_facts[OF assms(1,2)] False by simp_all
  show ?thesis
    using False g b
    by (simp add: compB_ok_def rps_mount_def rps_sync_def truthy_def)
qed

lemma inv_join:
  assumes "inv w" "enabled w (Join usr room)"
  shows "inv (join_step w usr room)"
proof (cases "player1_id room = usr")
  case True
  then show ?thesis using assms by (simp add: join_step_eq)
next
  case False
  have e: "table w = [room]" "status room = ''waiting''" "player2_id room = None" "usr \<noteq> []"
    using enabled_join_row[OF assms] by simp_all
  have i: "row_inv room" "compA_ok room (compA w)"
    using assms(1) e(1) by (simp_all add: inv_def)
  have u: "usr \<noteq> player1_id room" using False by auto
  show ?thesis
    unfolding join_step_eq[OF assms] inv_def
    using False row_inv_joined[OF i(1) e(2) e(4) False] compA_ok_joined[OF i(1) e(2) i(2)]
      compB_ok_joined[OF i(1) e(2) u]
    by simp
qed

lemma handleClick_accepted:
  assumes "handleClick c i now = Some u"
  defines "nb \<equiv> arr_set (t_board c) i (Str (t_currentTurn c))"
  shows "\<not> truthy_cell (cell_at (t_board c) i)"
    and "\<not> truthy (t_winner c)"
    and "t_currentTurn c = ''X'' \<Longrightarrow> t_isPlayer1 c"
    and "t_currentTurn c = ''O'' \<Longrightarrow> \<not> t_isPlayer1 c"
    and "status (t_gameState c) = ''in_progress''"
    and "u_game_state u =
           Some \<lparr>board = Some nb,
                 currentTurn = Some (if t_currentTurn c = ''X'' then ''O'' else ''X''),
                 player1Choice = None, player2Choice = None\<rparr>"
    and "u_status u =
           (if truthy_cell (checkWinner nb) \<or> list_all (\<lambda>x. x \<noteq> Null) nb
            then Some ''completed'' else None)"
    and "u_winner_id u =
           (if truthy_cell (checkWinner nb)
            then Some (if checkWinner nb = Str ''X'' then Some (player1_id (t_gameRoom c))
                       else player2_id (t_gameRoom c))
            else None)"
    and "u_completed_at u =
           (if truthy_cell (checkWinner nb) \<or> list_all (\<lambda>x. x \<noteq> Null) nb
            then Some now else None)"
  using assms(1) unfolding nb_def handleClick_def Let_def
  by (auto split: if_splits)

lemma apply_updates_simps [simp]:
  "room_id (apply_updates r u) = room_id r"
  "game_type (apply_updates r u) = game_type r"
  "player1_id (apply_updates r u) = player1_id r"
  "player2_id (apply_updates r u) = player2_id r"
  "created_at (apply_updates r u) = created_at r"
  by (simp_all add: apply_updates_def)

lemma valid_cell_falsy:
  "valid_cell x \<Longrightarrow> \<not> truthy_cell x \<Longrightarrow> x = Null"
  by (auto simp: valid_cell_def)

lemma click_sync:
  assumes ri: "row_inv r" and gt: "game_type r = ''tic_tac_toe''" and sy: "ttt_sync r c"
    and i: "i < 9" and h: "handleClick c i now = Some u" and p: "participant r c"
  defines "nb \<equiv> (pboard r)[i := Str (pturn r)]"
  shows "status r = ''in_progress''"
    and "cell_at (pboard r) i = Null"
    and "game_state (apply_updates r u) =
           \<lparr>board = Some nb, currentTurn = Some (flip (pturn r)),
            player1Choice = None, player2Choice = None\<rparr>"
    and "truthy_cell (checkWinner nb) \<Longrightarrow> checkWinner nb = Str (pturn r)"
    and "(pturn r = ''X'') = (t_user c = Some (player1_id r))"
    and "status (apply_updates r u) =
           (if truthy_cell (checkWinner nb) \<or> list_all (\<lambda>x. x \<noteq> Null) nb
            then ''completed'' else ''in_progress'')"
    and "winner_id (apply_updates r u) = (if truthy_cell (checkWinner nb) then t_user c else None)"
proof -
  have ti: "ttt_room_inv r" using ri gt by (simp add: row_inv_def)
  have len: "length (pboard r) = 9" and val: "list_all valid_cell (pboard r)"
    and turn: "pturn r = ''X'' \<or> pturn r = ''O''"
    using ti by (simp_all add: ttt_room_inv_def)
  have b: "t_board c = pboard r" and t: "t_currentTurn c = pturn r" and gs: "t_gameState c = r"
    and p1: "player1_id (t_gameRoom c) = player1_id r"
    using sy by (simp_all add: ttt_sync_def)
  have nb: "arr_set (t_board c) i (Str (t_currentTurn c)) = nb"
    using i len by (simp add: nb_def b t arr_set_def)
  note hc = handleClick_accepted[OF h, unfolded nb]
  show st: "status r = ''in_progress''" using hc(5) gs by simp
  have w0: "checkWinner (pboard r) = Null" "winner_id r = None"
    using ti st by (simp_all add: ttt_room_inv_def)
  have "valid_cell (cell_at (pboard r) i)"
    using val i len by (simp add: cell_at_def list_all_length)
  then show e: "cell_at (pboard r) i = Null"
    using hc(1) b valid_cell_falsy by simp
  show "game_state (apply_updates r u) =
           \<lparr>board = Some nb, currentTurn = Some (flip (pturn r)),
            player1Choice = None, player2Choice = None\<rparr>"
    using hc(6) t by (simp add: apply_updates_def flip_def)
  have isp: "t_isPlayer1 c = (t_user c = Some (player1_id r))"
    by (simp add: t_isPlayer1_def p1)
  show tx: "(pturn r = ''X'') = (t_user c = Some (player1_id r))"
    using hc(3) hc(4) t turn isp by auto
  show cw: "truthy_cell (checkWinner nb) \<Longrightarrow> checkWinner nb = Str (pturn r)"
    using checkLines_new_mark[of "pboard r" lines i "Str (pturn r)"] w0(1) e i len
    by (simp add: checkWinner_def nb_def)
  show "status (apply_updates r u) =
           (if truthy_cell (checkWinner nb) \<or> list_all (\<lambda>x. x \<noteq> Null) nb
            then ''completed'' else ''in_progress'')"
    using hc(7) st by (simp add: apply_updates_def)
  have "truthy_cell (checkWinner nb) \<Longrightarrow>
          (if checkWinner nb = Str ''X'' then Some (player1_id (t_gameRoom c))
           else player2_id (t_gameRoom c)) = t_user c"
  proof -
    assume "truthy_cell (checkWinner nb)"
    then have c: "checkWinner nb = Str (pturn r)" by (rule cw)
    show ?thesis
    proof (cases "pturn r = ''X''")
      case True
      then show ?thesis using c tx p1 by simp
    next
      case False
      then have "t_user c \<noteq> Some (player1_id r)" using tx by simp
      then obtain b where "t_user c = Some b" "player2_id (t_gameRoom c) = Some b"
        using p by (auto simp: participant_def)
      then show ?thesis using c False by simp
    qed
  qed
  then show "winner_id (apply_updates r u) = (if truthy_cell (checkWinner nb) then t_user c else None)"
    using hc(8) w0(2) by (simp add: apply_updates_def)
qed

lemma ttt_sync_deliver:
  assumes "ttt_sync r c" "winner_id r = None" "board (game_state r') \<noteq> None"
    "room_id r' = room_id r" "player1_id r' = player1_id r"
    "winner_id r' \<noteq> None \<longrightarrow> truthy (winner_id r')"
  shows "ttt_sync r' (fst (ttt_on_update c r'))"
  using assms
  by (auto simp: ttt_sync_def ttt_on_update_def Let_def pboard_def pturn_def truthy_def
      split: option.splits)

lemma row_inv_click:
  assumes ri: "row_inv r" and gt: "game_type r = ''tic_tac_toe''" and sy: "ttt_sync r c"
    and i: "i < 9" and h: "handleClick c i now = Some u" and p: "participant r c"
  shows "row_inv (apply_updates r u)"
proof -
  define nb where "nb = (pboard r)[i := Str (pturn r)]"
  note cs = click_sync[OF ri gt sy i h p, folded nb_def]
  have ti: "ttt_room_inv r" using ri gt by (simp add: row_inv_def)
  have len: "length (pboard r) = 9" and val: "list_all valid_cell (pboard r)"
    and turn: "pturn r = ''X'' \<or> pturn r = ''O''"
    using ti by (simp_all add: ttt_room_inv_def)
  have pb: "pboard (apply_updates r u) = nb"
    by (simp add: pboard_def cs(3))
  have pt: "pturn (apply_updates r u) = flip (pturn r)"
    by (simp add: pturn_def cs(3) or_X_def truthy_def flip_def)
  have vnb: "list_all valid_cell nb"
    using val turn unfolding nb_def list_all_iff valid_cell_def
    by (auto dest!: set_update_subset_insert[THEN subsetD])
  have uid: "\<exists>x. t_user c = Some x \<and> x \<noteq> []"
    using p ri by (auto simp: participant_def row_inv_def)
  have nul: "\<not> truthy_cell (checkWinner nb) \<Longrightarrow> checkWinner nb = Null"
    by (simp add: checkWinner_def checkLines_Null_or_truthy)
  have "ttt_room_inv (apply_updates r u)"
    unfolding ttt_room_inv_def pb pt
    using len vnb turn uid nul
    by (auto simp: nb_def cs(6) cs(7) flip_def truthy_def)
  moreover have "player2_id r \<noteq> None"
    using ri cs(1) by (auto simp: row_inv_def)
  ultimately show ?thesis
    using ri gt unfolding row_inv_def
    by (auto simp: cs(6) cs(7))
qed

lemma row_invD:
  assumes "row_inv r"
  shows "player1_id r \<noteq> []"
    and "player2_id r = Some b \<Longrightarrow> b \<noteq> [] \<and> b \<noteq> player1_id r"
    and "(status r = ''waiting'') = (player2_id r = None)"
    and "winner_id r \<noteq> None \<Longrightarrow> status r = ''completed''"
    and "game_type r = ''tic_tac_toe'' \<Longrightarrow> ttt_room_inv r"
    and "game_type r \<noteq> ''tic_tac_toe'' \<Longrightarrow> game_type r = ''rock_paper_scissors'' \<and> rps_room_inv r"
    and "status r = ''waiting'' \<or> status r = ''in_progress'' \<or> status r = ''completed''"
  using assms unfolding row_inv_def by (auto split: if_splits)

lemma compA_okD:
  assumes "compA_ok r cA"
  shows "cA = Some (TTT c) \<Longrightarrow>
           game_type r = ''tic_tac_toe'' \<and> t_user c = Some (player1_id r) \<and> ttt_sync r c
           \<and> player2_id (t_gameRoom c) = None"
    and "cA = Some (RPS d) \<Longrightarrow>
           game_type r = ''rock_paper_scissors'' \<and> r_user d = Some (player1_id r)
           \<and> rps_sync r d True \<and> player2_id (r_gameRoom d) = None"
    and "cA \<noteq> None"
  using assms unfolding compA_ok_def by (auto split: option.splits component.splits)

lemma compB_okD:
  assumes "compB_ok r cB"
  shows "cB = Some (TTT c) \<Longrightarrow>
           game_type r = ''tic_tac_toe'' \<and> player2_id r = t_user c \<and> t_user c \<noteq> None
           \<and> player2_id (t_gameRoom c) = t_user c \<and> ttt_sync r c"
    and "cB = Some (RPS d) \<Longrightarrow>
           game_type r = ''rock_paper_scissors'' \<and> player2_id r = r_user d \<and> r_user d \<noteq> None
           \<and> player2_id (r_gameRoom d) = r_user d \<and> rps_sync r d False"
    and "(cB = None) = (player2_id r = None)"
  using assms unfolding compB_ok_def by (auto split: option.splits component.splits)

lemma comp_of_ttt:
  assumes "row_inv r" "compA_ok r (compA w)" "compB_ok r (compB w)"
    "comp_of w who = Some (TTT c)"
  shows "game_type r = ''tic_tac_toe''" "ttt_sync r c" "participant r c"
    "who = (t_user c = Some (player1_id r))"
proof -
  show "game_type r = ''tic_tac_toe''" "ttt_sync r c"
    using assms(4) compA_okD(1)[OF assms(2), of c] compB_okD(1)[OF assms(3), of c]
    by (auto simp: comp_of_def split: if_splits)
  show "participant r c"
    using assms(4) compA_okD(1)[OF assms(2), of c] compB_okD(1)[OF assms(3), of c]
    by (cases who) (auto simp: comp_of_def participant_def)
  show "who = (t_user c = Some (player1_id r))"
  proof (cases who)
    case True
    then show ?thesis using assms(4) compA_okD(1)[OF assms(2), of c] by (simp add: comp_of_def)
  next
    case False
    then have "compB w = Some (TTT c)" using assms(4) by (simp add: comp_of_def)
    then have "player2_id r = t_user c" "t_user c \<noteq> None"
      using compB_okD(1)[OF assms(3), of c] by simp_all
    then show ?thesis using False row_invD(2)[OF assms(1)] by auto
  qed
qed

lemma notify_single:
  assumes "table w = [r]" "room_id r = rid"
  shows "notify w rid = w\<lparr>compA := map_option (deliver r) (compA w),
                          compB := map_option (deliver r) (compB w)\<rparr>"
  using assms by (simp add: notify_def)

lemma click_step_eq:
  assumes "table w = [r]" "comp_of w who = Some (TTT c)" "room_id (t_gameRoom c) = room_id r"
    "handleClick c i now = Some u"
  shows "click_step w who i now =
           w\<lparr>table := [apply_updates r u],
             compA := map_option (deliver (apply_updates r u)) (compA w),
             compB := map_option (deliver (apply_updates r u)) (compB w)\<rparr>"
  using assms
  by (simp add: click_step_def db_update_def notify_single)

lemma compA_ok_deliver_ttt:
  assumes "compA_ok r cA" "game_type r = ''tic_tac_toe''" "winner_id r = None"
    "board (game_state r') \<noteq> None" "room_id r' = room_id r" "player1_id r' = player1_id r"
    "game_type r' = game_type r" "winner_id r' \<noteq> None \<longrightarrow> truthy (winner_id r')"
  shows "compA_ok r' (map_option (deliver r') cA)"
  using assms ttt_sync_deliver[of r _ r']
  by (auto simp: compA_ok_def ttt_sync_def split: option.splits component.splits)

lemma compB_ok_deliver_ttt:
  assumes "compB_ok r cB" "game_type r = ''tic_tac_toe''" "winner_id r = None"
    "board (game_state r') \<noteq> None" "room_id r' = room_id r" "player1_id r' = player1_id r"
    "game_type r' = game_type r" "winner_id r' \<noteq> None \<longrightarrow> truthy (winner_id r')"
    "player2_id r' = player2_id r"
  shows "compB_ok r' (map_option (deliver r') cB)"
  using assms ttt_sync_deliver[of r _ r']
  by (auto simp: compB_ok_def ttt_sync_def split: option.splits component.splits)

lemma inv_click:
  assumes "inv w" "enabled w (Click who i now)"
  shows "inv (click_step w who i now)"
  using assms(1)
proof (cases rule: inv_table_cases)
  case 1
  then show ?thesis using assms(1) by (simp add: click_step_def comp_of_def)
next
  case (2 r)
  show ?thesis
  proof (cases "\<exists>c u. comp_of w who = Some (TTT c) \<and> handleClick c i now = Some u")
    case False
    then have "click_step w who i now = w"
      by (auto simp: click_step_def split: option.splits component.splits)
    then show ?thesis using assms(1) by simp
  next
    case True
    then obtain c u where c: "comp_of w who = Some (TTT c)" and h: "handleClick c i now = Some u"
      by auto
    have i: "i < 9" using assms(2) by simp
    note ct = comp_of_ttt[OF 2(2) 2(3) 2(4) c]
    note cs = click_sync[OF 2(2) ct(1) ct(2) i h ct(3)]
    have rid: "room_id (t_gameRoom c) = room_id r" using ct(2) by (simp add: ttt_sync_def)
    have ri': "row_inv (apply_updates r u)"
      by (rule row_inv_click[OF 2(2) ct(1) ct(2) i h ct(3)])
    have w0: "winner_id r = None"
      using row_invD(5)[OF 2(2) ct(1)] cs(1) by (simp add: ttt_room_inv_def)
    have bd: "board (game_state (apply_updates r u)) \<noteq> None"
      by (simp add: cs(3))
    have wt: "winner_id (apply_updates r u) \<noteq> None \<longrightarrow> truthy (winner_id (apply_updates r u))"
      using row_invD(5)[OF ri'] ct(1) by (simp add: ttt_room_inv_def)
    have a: "compA_ok (apply_updates r u) (map_option (deliver (apply_updates r u)) (compA w))"
      by (rule compA_ok_deliver_ttt[OF 2(3) ct(1) w0 bd _ _ _ wt]) simp_all
    have b: "compB_ok (apply_updates r u) (map_option (deliver (apply_updates r u)) (compB w))"
      by (rule compB_ok_deliver_ttt[OF 2(4) ct(1) w0 bd _ _ _ wt]) simp_all
    show ?thesis
      unfolding click_step_eq[OF 2(1) c rid h] inv_def
      using ri' a b by simp
  qed
qed

lemma slot_set_slot [simp]:
  "slot k (set_slot k ch gs) = Some ch"
  "slot (\<not> k) (set_slot k ch gs) = slot (\<not> k) gs"
  "board (set_slot k ch gs) = board gs"
  "currentTurn (set_slot k ch gs) = currentTurn gs"
  by (simp_all add: slot_def set_slot_def)

lemma makeChoice_rejected:
  "r_user c = None \<or> truthy (r_myChoice c) \<Longrightarrow> makeChoice c ch now = (c, None)"
  by (simp add: makeChoice_def)

lemma makeChoice_first:
  assumes "r_user c \<noteq> None" "\<not> truthy (r_myChoice c)"
    "\<not> truthy (slot (\<not> r_isPlayer1 c) (game_state (r_gameState c)))"
  shows "makeChoice c ch now =
           (c\<lparr>r_myChoice := Some ch\<rparr>,
            Some \<lparr>u_game_state = Some (set_slot (r_isPlayer1 c) ch (game_state (r_gameState c))),
                  u_status = None, u_winner_id = None, u_completed_at = None\<rparr>)"
proof (cases "r_isPlayer1 c")
  case True
  then show ?thesis using assms
    by (simp add: makeChoice_def Let_def slot_def set_slot_def truthy_def split: option.splits)
next
  case False
  then show ?thesis using assms
    by (simp add: makeChoice_def Let_def slot_def set_slot_def truthy_def split: option.splits)
qed

lemma makeChoice_second:
  assumes "r_user c \<noteq> None" "\<not> truthy (r_myChoice c)"
    "slot (\<not> r_isPlayer1 c) (game_state (r_gameState c)) = Some other" "other \<noteq> []"
  shows "makeChoice c ch now =
           (c\<lparr>r_myChoice := Some ch\<rparr>,
            Some \<lparr>u_game_state = Some (set_slot (r_isPlayer1 c) ch (game_state (r_gameState c))),
                  u_status = Some ''completed'',
                  u_winner_id =
                    (if ch = other then None
                     else Some (if winConditions (if r_isPlayer1 c then ch else other)
                                     = Some (if r_isPlayer1 c then other else ch)
                                then Some (player1_id (r_gameRoom c))
                                else player2_id (r_gameRoom c))),
                  u_completed_at = Some now\<rparr>)"
proof (cases "r_isPlayer1 c")
  case True
  then show ?thesis using assms
    by (simp add: makeChoice_def Let_def slot_def set_slot_def truthy_def split: option.splits)
next
  case False
  then show ?thesis using assms
    by (simp add: makeChoice_def Let_def slot_def set_slot_def truthy_def split: option.splits)
qed

lemma comp_of_rps:
  assumes "row_inv r" "compA_ok r (compA w)" "compB_ok r (compB w)"
    "comp_of w who = Some (RPS c)"
  shows "game_type r = ''rock_paper_scissors''" "rps_sync r c who" "r_user c \<noteq> None"
    "r_isPlayer1 c = who"
    "\<not> who \<Longrightarrow> player2_id r = r_user c \<and> player2_id (r_gameRoom c) = r_user c"
    "who \<Longrightarrow> r_user c = Some (player1_id r)"
proof -
  show g: "game_type r = ''rock_paper_scissors''" and s: "rps_sync r c who"
    and u: "r_user c \<noteq> None"
    using assms(4) compA_okD(2)[OF assms(2), of c] compB_okD(2)[OF assms(3), of c]
    by (cases who; simp add: comp_of_def)+
  show b: "\<not> who \<Longrightarrow> player2_id r = r_user c \<and> player2_id (r_gameRoom c) = r_user c"
    using assms(4) compB_okD(2)[OF assms(3), of c] by (simp add: comp_of_def)
  show a: "who \<Longrightarrow> r_user c = Some (player1_id r)"
    using assms(4) compA_okD(2)[OF assms(2), of c] by (simp add: comp_of_def)
  have p1: "player1_id (r_gameRoom c) = player1_id r" using s by (simp add: rps_sync_def)
  show "r_isPlayer1 c = who"
  proof (cases who)
    case True
    then show ?thesis using a p1 by (simp add: r_isPlayer1_def)
  next
    case False
    then have "player2_id r = r_user c" using b by simp
    then show ?thesis using False u row_invD(2)[OF assms(1)] p1
      by (auto simp: r_isPlayer1_def)
  qed
qed

lemma valid_choice_truthy: "valid_choice v \<Longrightarrow> truthy v = (v \<noteq> None)"
  by (auto simp: valid_choice_def truthy_def)

lemma rps_room_invD:
  assumes "rps_room_inv r"
  shows "valid_choice (slot k (game_state r))"
    and "status r = ''in_progress'' \<Longrightarrow> slot k (game_state r) \<noteq> None
           \<Longrightarrow> slot (\<not> k) (game_state r) = None"
    and "status r = ''completed'' \<Longrightarrow> slot k (game_state r) \<noteq> None"
    and "winner_id r \<noteq> None \<Longrightarrow> slot k (game_state r) \<noteq> slot (\<not> k) (game_state r)"
  using assms unfolding rps_room_inv_def slot_def by (cases k; auto)+

lemma rps_room_invI:
  assumes "\<And>k. valid_choice (slot k (game_state r))"
    and "status r \<noteq> ''waiting''"
    and "status r = ''in_progress'' \<Longrightarrow>
           slot True (game_state r) = None \<or> slot False (game_state r) = None"
    and "status r = ''completed'' \<Longrightarrow>
           slot True (game_state r) \<noteq> None \<and> slot False (game_state r) \<noteq> None"
    and "winner_id r \<noteq> None \<Longrightarrow> slot True (game_state r) \<noteq> slot False (game_state r)"
  shows "rps_room_inv r"
  using assms(1)[of True] assms(1)[of False] assms(2-5)
  unfolding rps_room_inv_def slot_def by simp

lemma valid_choice_nonempty: "valid_choice (Some x) \<Longrightarrow> x \<noteq> []"
  by (auto simp: valid_choice_def)

lemma choose_sync:
  assumes ri: "row_inv r" and gt: "game_type r = ''rock_paper_scissors''"
    and sy: "rps_sync r c who" and isp: "r_isPlayer1 c = who" and usr: "r_user c \<noteq> None"
    and p2: "player2_id r \<noteq> None" and ch: "valid_choice (Some ch)"
    and mk: "makeChoice c ch now = (c', Some u)"
  shows "status r = ''in_progress''"
    and "slot who (game_state r) = None"
    and "c' = c\<lparr>r_myChoice := Some ch\<rparr>"
    and "game_state (apply_updates r u) = set_slot who ch (game_state r)"
    and "status (apply_updates r u) =
           (if slot (\<not> who) (game_state r) = None then ''in_progress'' else ''completed'')"
    and "winner_id (apply_updates r u) \<noteq> None \<Longrightarrow>
           slot (\<not> who) (game_state r) \<noteq> None \<and> slot (\<not> who) (game_state r) \<noteq> Some ch"
    and "row_inv (apply_updates r u)"
proof -
  have rr: "rps_room_inv r" using row_invD(6)[OF ri] gt by simp
  have gs: "r_gameState c = r" and my: "r_myChoice c = slot who (game_state r)"
    using sy by (simp_all add: rps_sync_def slot_def)
  have nt: "\<not> truthy (r_myChoice c)"
    using mk makeChoice_rejected[of c ch now] by auto
  then show own: "slot who (game_state r) = None"
    using my valid_choice_truthy[OF rps_room_invD(1)[OF rr, of who]] by simp
  have "status r \<noteq> ''waiting''" using row_invD(3)[OF ri] p2 by simp
  moreover have "status r \<noteq> ''completed''"
    using rps_room_invD(3)[OF rr, of who] own by auto
  ultimately show st: "status r = ''in_progress''"
    using row_invD(7)[OF ri] by auto
  have w0: "winner_id r = None" using row_invD(4)[OF ri] st by (cases "winner_id r") auto
  have vo: "valid_choice (slot (\<not> who) (game_state r))"
    by (rule rps_room_invD(1)[OF rr])
  have all4: "c' = c\<lparr>r_myChoice := Some ch\<rparr> \<and>
        game_state (apply_updates r u) = set_slot who ch (game_state r) \<and>
        status (apply_updates r u) =
           (if slot (\<not> who) (game_state r) = None then ''in_progress'' else ''completed'') \<and>
        (winner_id (apply_updates r u) \<noteq> None \<longrightarrow>
           slot (\<not> who) (game_state r) \<noteq> None \<and> slot (\<not> who) (game_state r) \<noteq> Some ch)"
  proof (cases "slot (\<not> who) (game_state r)")
    case None
    then have "\<not> truthy (slot (\<not> r_isPlayer1 c) (game_state (r_gameState c)))"
      by (simp add: isp gs truthy_def)
    from makeChoice_first[OF usr nt this, of ch now] mk
    show ?thesis
      using None st w0 by (auto simp: apply_updates_def isp gs)
  next
    case (Some other)
    then have o: "slot (\<not> r_isPlayer1 c) (game_state (r_gameState c)) = Some other"
      by (simp add: isp gs)
    have ne: "other \<noteq> []" using vo Some valid_choice_nonempty by simp
    from makeChoice_second[OF usr nt o ne, of ch now] mk
    show ?thesis
      using Some st w0 by (auto simp: apply_updates_def isp gs split: if_splits)
  qed
  show c': "c' = c\<lparr>r_myChoice := Some ch\<rparr>" using all4 by simp
  show g': "game_state (apply_updates r u) = set_slot who ch (game_state r)" using all4 by simp
  show s': "status (apply_updates r u) =
           (if slot (\<not> who) (game_state r) = None then ''in_progress'' else ''completed'')"
    using all4 by simp
  show w': "winner_id (apply_updates r u) \<noteq> None \<Longrightarrow>
           slot (\<not> who) (game_state r) \<noteq> None \<and> slot (\<not> who) (game_state r) \<noteq> Some ch"
    using all4 by simp
  have "rps_room_inv (apply_updates r u)"
  proof (rule rps_room_invI)
    fix k show "valid_choice (slot k (game_state (apply_updates r u)))"
      using rps_room_invD(1)[OF rr, of k] ch unfolding g'
      by (cases "k = who") (auto simp: slot_def set_slot_def)
  next
    show "status (apply_updates r u) \<noteq> ''waiting''" by (simp add: s')
  next
    assume "status (apply_updates r u) = ''in_progress''"
    then have "slot (\<not> who) (game_state r) = None" by (simp add: s' split: if_splits)
    then show "slot True (game_state (apply_updates r u)) = None
        \<or> slot False (game_state (apply_updates r u)) = None"
      unfolding g' by (cases who) (simp_all add: slot_def set_slot_def)
  next
    assume "status (apply_updates r u) = ''completed''"
    then have "slot (\<not> who) (game_state r) \<noteq> None" by (simp add: s' split: if_splits)
    then show "slot True (game_state (apply_updates r u)) \<noteq> None
        \<and> slot False (game_state (apply_updates r u)) \<noteq> None"
      unfolding g' by (cases who) (simp_all add: slot_def set_slot_def)
  next
    assume "winner_id (apply_updates r u) \<noteq> None"
    from w'[OF this]
    show "slot True (game_state (apply_updates r u)) \<noteq> slot False (game_state (apply_updates r u))"
      unfolding g' by (cases who) (auto simp: slot_def set_slot_def)
  qed
  moreover have "winner_id (apply_updates r u) \<noteq> None \<Longrightarrow> status (apply_updates r u) = ''completed''"
    using w' by (simp add: s')
  ultimately show "row_inv (apply_updates r u)"
    using ri gt p2 unfolding row_inv_def by (auto simp: s')
qed

lemma set_comp_same: "comp_of w who = Some x \<Longrightarrow> set_comp w who x = w"
  by (cases who) (simp_all add: set_comp_def comp_of_def)

lemma makeChoice_None: "makeChoice c ch now = (c', None) \<Longrightarrow> c' = c"
  by (auto simp: makeChoice_def Let_def split: if_splits option.splits)

lemma rps_sync_deliver:
  assumes "room_id (r_gameRoom d) = room_id r'" "player1_id (r_gameRoom d) = player1_id r'"
    "r_myChoice d = slot k (game_state r')"
  shows "rps_sync r' (fst (rps_on_update d r')) k"
  using assms by (simp add: rps_sync_def slot_def)

lemma choose_step_eq:
  assumes "table w = [r]" "comp_of w who = Some (RPS c)" "room_id (r_gameRoom c) = room_id r"
    "makeChoice c ch now = (c', Some u)"
  shows "choose_step w who ch now =
           w\<lparr>table := [apply_updates r u],
             compA := map_option (deliver (apply_updates r u))
                        (if who then Some (RPS c') else compA w),
             compB := map_option (deliver (apply_updates r u))
                        (if who then compB w else Some (RPS c'))\<rparr>"
  using assms
  by (cases who) (simp_all add: choose_step_def db_update_def notify_def set_comp_def)

lemma inv_choose:
  assumes "inv w" "enabled w (Choose who ch now)"
  shows "inv (choose_step w who ch now)"
  using assms(1)
proof (cases rule: inv_table_cases)
  case 1
  then show ?thesis using assms(1) by (simp add: choose_step_def comp_of_def)
next
  case (2 r)
  from assms(2) obtain c where c: "comp_of w who = Some (RPS c)"
    and p2c: "truthy (player2_id (r_gameState c))"
    and ch: "ch = ''rock'' \<or> ch = ''paper'' \<or> ch = ''scissors''"
    by (auto split: option.splits component.splits)
  note cr = comp_of_rps[OF 2(2) 2(3) 2(4) c]
  have gs: "r_gameState c = r" and rid: "room_id (r_gameRoom c) = room_id r"
    and p1: "player1_id (r_gameRoom c) = player1_id r"
    using cr(2) by (simp_all add: rps_sync_def)
  have p2: "player2_id r \<noteq> None" using p2c gs by (auto simp: truthy_def split: option.splits)
  have vch: "valid_choice (Some ch)" using ch by (simp add: valid_choice_def)
  obtain c' uo where mk: "makeChoice c ch now = (c', uo)" by (cases "makeChoice c ch now")
  show ?thesis
  proof (cases uo)
    case None
    then have "c' = c" using mk makeChoice_None by simp
    then have "choose_step w who ch now = w"
      using c mk None by (simp add: choose_step_def set_comp_same)
    then show ?thesis using assms(1) by simp
  next
    case (Some u)
    then have mk': "makeChoice c ch now = (c', Some u)" using mk by simp
    note cs = choose_sync[OF 2(2) cr(1) cr(2) cr(4) cr(3) p2 vch mk']
    let ?r' = "apply_updates r u"
    have own: "r_myChoice c' = slot who (game_state ?r')"
      by (simp add: cs(3) cs(4))
    have ids: "room_id (r_gameRoom c') = room_id ?r'" "player1_id (r_gameRoom c') = player1_id ?r'"
      "r_user c' = r_user c" "r_gameRoom c' = r_gameRoom c"
      by (simp_all add: cs(3) rid p1)
    have sc: "rps_sync ?r' (fst (rps_on_update c' ?r')) who"
      by (rule rps_sync_deliver[OF ids(1) ids(2) own])
    have a: "compA_ok ?r' (map_option (deliver ?r') (if who then Some (RPS c') else compA w))"
    proof (cases who)
      case True
      then have "compA w = Some (RPS c)" using c by (simp add: comp_of_def)
      then have "player2_id (r_gameRoom c) = None" using compA_okD(2)[OF 2(3)] by simp
      then show ?thesis
        using True sc cr(6) ids cr(1) rid by (simp add: compA_ok_def)
    next
      case False
      obtain d where d: "compA w = Some (RPS d)"
        using 2(3) cr(1) by (auto simp: compA_ok_def split: option.splits component.splits)
      note da = compA_okD(2)[OF 2(3) d, simplified]
      have "r_myChoice d = slot True (game_state ?r')"
        using da False by (simp add: cs(4) rps_sync_def slot_def set_slot_def)
      then have "rps_sync ?r' (fst (rps_on_update d ?r')) True"
        using da by (intro rps_sync_deliver) (simp_all add: rps_sync_def)
      then show ?thesis
        using False d da by (simp add: compA_ok_def rps_sync_def)
    qed
    have b: "compB_ok ?r' (map_option (deliver ?r') (if who then compB w else Some (RPS c')))"
    proof (cases who)
      case False
      then show ?thesis
        using sc cr(5) ids cr(1) rid p2 by (auto simp: compB_ok_def)
    next
      case True
      obtain d where d: "compB w = Some (RPS d)"
        using 2(4) cr(1) p2 by (auto simp: compB_ok_def split: option.splits component.splits)
      note db = compB_okD(2)[OF 2(4) d, simplified]
      have "r_myChoice d = slot False (game_state ?r')"
        using db True by (simp add: cs(4) rps_sync_def slot_def set_slot_def)
      then have "rps_sync ?r' (fst (rps_on_update d ?r')) False"
        using db by (intro rps_sync_deliver) (simp_all add: rps_sync_def)
      then show ?thesis
        using True d db p2 by (auto simp: compB_ok_def rps_sync_def)
    qed
    show ?thesis
      unfolding choose_step_eq[OF 2(1) c rid mk'] inv_def
      using cs(7) a b by simp
  qed
qed

lemma reachable_inv: "reachable w \<Longrightarrow> inv w"
proof (induction rule: reachable.induct)
  case start
  then show ?case by (rule inv_init)
next
  case (next_step w a)
  then show ?case
    by (cases a) (simp_all add: inv_create inv_join inv_click inv_choose del: enabled.simps)
qed

text \<open>The table \<open>lines\<close> of the code lists the three rows, the three columns and the two
  diagonals of the grid.\<close>

lemma has_line_lines:
  "has_line b = (\<exists>(x, y, z) \<in> set lines.
      truthy_cell (cell_at b x) \<and> cell_at b x = cell_at b y \<and> cell_at b x = cell_at b z)"
  by (simp add: has_line_def same3_def grid_def lines_def eval_nat_numeral)

lemma line_of_lines:
  "line_of b s = (s \<noteq> [] \<and> (\<exists>(x, y, z) \<in> set lines.
      cell_at b x = Str s \<and> cell_at b y = Str s \<and> cell_at b z = Str s))"
  by (simp add: line_of_def grid_def lines_def eval_nat_numeral)

lemma has_line_checkWinner: "has_line b = truthy_cell (checkWinner b)"
  by (simp add: has_line_lines checkWinner_def checkLines_truthy_iff)

lemma new_line_symbol:
  assumes "checkLines b ls = Null" "cell_at b i = Null" "(x, y, z) \<in> set ls"
    "cell_at (b[i := v]) x = Str s" "cell_at (b[i := v]) y = Str s"
    "cell_at (b[i := v]) z = Str s" "s \<noteq> []"
  shows "v = Str s"
proof (rule ccontr)
  assume n: "v \<noteq> Str s"
  then have "cell_at b x = Str s" "cell_at b y = Str s" "cell_at b z = Str s"
    using assms(4-6) by (auto simp: cell_at_update split: if_splits)
  then have "truthy_cell (checkLines b ls)"
    using assms(3,7) by (auto simp: checkLines_truthy_iff intro!: bexI[of _ "(x, y, z)"])
  then show False using assms(1) by simp
qed

lemma line_of_new_mark:
  assumes "checkWinner b = Null" "cell_at b i = Null" "line_of (b[i := Str t]) s"
  shows "s = t"
proof -
  from assms(3) obtain x y z where "(x, y, z) \<in> set lines" "s \<noteq> []"
    "cell_at (b[i := Str t]) x = Str s" "cell_at (b[i := Str t]) y = Str s"
    "cell_at (b[i := Str t]) z = Str s"
    by (auto simp: line_of_lines)
  from new_line_symbol[OF assms(1)[unfolded checkWinner_def] assms(2) this(1) this(3-5) this(2)]
  show ?thesis by simp
qed

lemma checkWinner_line_of:
  assumes "checkWinner b = Str s" "s \<noteq> []"
  shows "line_of b s"
proof -
  have "truthy_cell (checkLines b lines)" using assms by (simp add: checkWinner_def)
  from checkLines_is_line[OF this] show ?thesis
    using assms by (auto simp: line_of_lines checkWinner_def)
qed

lemma filled_valid:
  "list_all valid_cell b \<Longrightarrow> list_all (\<lambda>x. x \<noteq> Null) b = list_all truthy_cell b"
  by (induction b) (auto simp: valid_cell_def)

lemma full_valid:
  "list_all valid_cell b \<Longrightarrow> length b = 9 \<Longrightarrow> list_all (\<lambda>x. x \<noteq> Null) b = full b"
  by (simp add: full_def filled_valid)

text \<open>
  Claim C2 fails for a move made on a copy that is behind the table. With the board
  X X - / O O - / - - - and X to move, A clicks cell 2: the write completes the top row,
  sets the status to completed and the winner to A. Before the change event of that
  write reaches A's component, A clicks cell 5: the click is accepted on the same local
  board, its terminal check finds no line and a board that is not full, and the write
  carries the board X X - / O O X / - - - and neither status nor winner. After this
  accepted move the board of the room has no line and is not full, and the room is not
  in progress: it is completed with winner A.
\<close>

theorem stale_move_on_completed_room:
  "comp_of ttt_before_win True = Some (TTT creator_view)
   \<and> table ttt_before_win = [ttt_row4]
   \<and> handleClick creator_view 2 5 = Some winning_write
   \<and> status (apply_updates ttt_row4 winning_write) = ''completed''
   \<and> handleClick creator_view 5 6 = Some late_write
   \<and> pboard (apply_updates (apply_updates ttt_row4 winning_write) late_write)
       = [Str ''X'', Str ''X'', Null, Str ''O'', Str ''O'', Str ''X'', Null, Null, Null]
   \<and> \<not> has_line (pboard (apply_updates (apply_updates ttt_row4 winning_write) late_write))
   \<and> \<not> full (pboard (apply_updates (apply_updates ttt_row4 winning_write) late_write))
   \<and> status (apply_updates (apply_updates ttt_row4 winning_write) late_write) = ''completed''
   \<and> winner_id (apply_updates (apply_updates ttt_row4 winning_write) late_write) = Some ''A''"
  by code_simp

text \<open>
  Claim C2, amended: for moves made on a current copy of the row. In the worlds the
  operations reach when the change event of every write is delivered to both components
  before the next click, an accepted Tic-Tac-Toe move (cell \<open>i\<close> of the nine, clicked in
  the component \<open>c\<close> of either player) writes the row \<open>r' = apply_updates r u\<close> for
  which: if some of the eight lines of the new board (a row, a column or a diagonal of the
  grid) holds three equal non-empty symbols, the status is completed and the winner is
  the player who owns the symbol of every such line (player1 for X, player2 for O);
  otherwise, if all nine cells hold a mark, the status is completed and the winner is
  null; otherwise the room stays in progress with no winner.
\<close>

theorem ttt_terminal_check:
  assumes "reachable w" and "i < 9" and "comp_of w who = Some (TTT c)"
    and "handleClick c i now = Some u"
  shows "\<exists>r. table w = [r] \<and> table (click_step w who i now) = [apply_updates r u] \<and>
     (let r' = apply_updates r u; b' = pboard r' in
        if has_line b' then
          status r' = ''completed'' \<and> (\<exists>s. line_of b' s)
          \<and> (\<forall>s. line_of b' s \<longrightarrow> winner_id r' = owner r' s \<and> winner_id r' \<noteq> None)
        else if full b' then status r' = ''completed'' \<and> winner_id r' = None
        else status r' = ''in_progress'' \<and> winner_id r' = None)"
proof -
  have iw: "inv w" using assms(1) by (rule reachable_inv)
  have ne: "table w \<noteq> []"
    using iw assms(3) by (cases rule: inv_table_cases) (auto simp: comp_of_def split: if_splits)
  from iw ne obtain r where r: "table w = [r]" "row_inv r" "compA_ok r (compA w)"
    "compB_ok r (compB w)"
    by (cases rule: inv_table_cases) auto
  note ct = comp_of_ttt[OF r(2) r(3) r(4) assms(3)]
  note cs = click_sync[OF r(2) ct(1) ct(2) assms(2) assms(4) ct(3)]
  let ?r' = "apply_updates r u"
  let ?nb = "(pboard r)[i := Str (pturn r)]"
  have rid: "room_id (t_gameRoom c) = room_id r" using ct(2) by (simp add: ttt_sync_def)
  have tab: "table (click_step w who i now) = [?r']"
    by (simp add: click_step_eq[OF r(1) assms(3) rid assms(4)])
  have ti: "ttt_room_inv r" by (rule row_invD(5)[OF r(2) ct(1)])
  have turn: "pturn r = ''X'' \<or> pturn r = ''O''" and len: "length (pboard r) = 9"
    and val: "list_all valid_cell (pboard r)"
    using ti by (simp_all add: ttt_room_inv_def)
  have w0: "checkWinner (pboard r) = Null" using ti cs(1) by (simp add: ttt_room_inv_def)
  have pb: "pboard ?r' = ?nb" by (simp add: pboard_def cs(3))
  have ri': "row_inv ?r'" by (rule row_inv_click[OF r(2) ct(1) ct(2) assms(2) assms(4) ct(3)])
  have ti': "ttt_room_inv ?r'" using row_invD(5)[OF ri'] ct(1) by simp
  have fl: "list_all (\<lambda>x. x \<noteq> Null) ?nb = full ?nb"
    using ti' full_valid[of ?nb] by (simp add: ttt_room_inv_def pb)
  have own: "owner ?r' (pturn r) = t_user c"
  proof (cases "pturn r = ''X''")
    case True
    then show ?thesis using cs(5) by (simp add: owner_def)
  next
    case False
    then have o: "pturn r = ''O''" using turn by simp
    have "t_user c \<noteq> Some (player1_id r)" using cs(5) False by simp
    then have "player2_id r = t_user c" using ct(3) by (auto simp: participant_def)
    then show ?thesis using o by (simp add: owner_def)
  qed
  have uid: "t_user c \<noteq> None" using ct(3) by (auto simp: participant_def)
  have main: "if has_line ?nb then
          status ?r' = ''completed'' \<and> (\<exists>s. line_of ?nb s)
          \<and> (\<forall>s. line_of ?nb s \<longrightarrow> winner_id ?r' = owner ?r' s \<and> winner_id ?r' \<noteq> None)
        else if full ?nb then status ?r' = ''completed'' \<and> winner_id ?r' = None
        else status ?r' = ''in_progress'' \<and> winner_id ?r' = None"
  proof (cases "has_line ?nb")
    case True
    then have t: "truthy_cell (checkWinner ?nb)" by (simp add: has_line_checkWinner)
    have cw: "checkWinner ?nb = Str (pturn r)" by (rule cs(4)[OF t])
    have l: "line_of ?nb (pturn r)"
      using checkWinner_line_of[OF cw] turn by auto
    have "\<forall>s. line_of ?nb s \<longrightarrow> winner_id ?r' = owner ?r' s \<and> winner_id ?r' \<noteq> None"
    proof (intro allI impI)
      fix s assume "line_of ?nb s"
      then have "s = pturn r" by (rule line_of_new_mark[OF w0 cs(2)])
      then show "winner_id ?r' = owner ?r' s \<and> winner_id ?r' \<noteq> None"
        using own uid t by (simp add: cs(7))
    qed
    moreover have "status ?r' = ''completed''" using t by (simp add: cs(6))
    ultimately have "status ?r' = ''completed'' \<and> (\<exists>s. line_of ?nb s)
          \<and> (\<forall>s. line_of ?nb s \<longrightarrow> winner_id ?r' = owner ?r' s \<and> winner_id ?r' \<noteq> None)"
      using l by blast
    then show ?thesis
      by (subst if_P[OF True])
  next
    case False
    then have t: "\<not> truthy_cell (checkWinner ?nb)" by (simp add: has_line_checkWinner)
    show ?thesis using False t fl by (simp add: cs(6) cs(7))
  qed
  show ?thesis
  proof (intro exI[of _ r] conjI)
    show "table w = [r]" by (rule r(1))
    show "table (click_step w who i now) = [?r']" by (rule tab)
    show "let r' = ?r'; b' = pboard r' in
        if has_line b' then
          status r' = ''completed'' \<and> (\<exists>s. line_of b' s)
          \<and> (\<forall>s. line_of b' s \<longrightarrow> winner_id r' = owner r' s \<and> winner_id r' \<noteq> None)
        else if full b' then status r' = ''completed'' \<and> winner_id r' = None
        else status r' = ''in_progress'' \<and> winner_id r' = None"
      unfolding Let_def pb by (rule main)
  qed
qed

lemma reachable_run: "reachable w \<Longrightarrow> all_enabled w as \<Longrightarrow> reachable (run w as)"
  by (induction as arbitrary: w) (auto intro: reachable.next_step)

lemma ttt_before_win_reachable: "reachable ttt_before_win"
  unfolding ttt_before_win_def
proof (rule reachable_run[OF reachable.start])
  show "all_enabled world_init ttt_moves" by code_simp
qed

lemma ttt_before_win_view: "comp_of ttt_before_win True = Some (TTT creator_view)"
  by code_simp

lemma ttt_before_win_click: "handleClick creator_view 2 5 = Some winning_write"
  by code_simp

lemma ttt_before_win_table: "table ttt_before_win = [ttt_row4]"
  by code_simp

theorem ttt_terminal_check_witness:
  "reachable ttt_before_win \<and> comp_of ttt_before_win True = Some (TTT creator_view)
   \<and> handleClick creator_view 2 5 = Some winning_write
   \<and> table (click_step ttt_before_win True 2 5) = [apply_updates ttt_row4 winning_write]
   \<and> has_line (pboard (apply_updates ttt_row4 winning_write))
   \<and> status (apply_updates ttt_row4 winning_write) = ''completed''
   \<and> winner_id (apply_updates ttt_row4 winning_write) = Some ''A''"
proof -
  have two: "(2::nat) < 9" by simp
  from ttt_terminal_check[OF ttt_before_win_reachable two ttt_before_win_view
      ttt_before_win_click]
  have c: "table (click_step ttt_before_win True 2 5) = [apply_updates ttt_row4 winning_write]"
    and d: "(let r' = apply_updates ttt_row4 winning_write; b' = pboard r' in
        if has_line b' then
          status r' = ''completed'' \<and> (\<exists>s. line_of b' s)
          \<and> (\<forall>s. line_of b' s \<longrightarrow> winner_id r' = owner r' s \<and> winner_id r' \<noteq> None)
        else if full b' then status r' = ''completed'' \<and> winner_id r' = None
        else status r' = ''in_progress'' \<and> winner_id r' = None)"
    by (simp_all add: ttt_before_win_table)
  have h: "has_line (pboard (apply_updates ttt_row4 winning_write))" by code_simp
  have l: "line_of (pboard (apply_updates ttt_row4 winning_write)) ''X''" by code_simp
  have o: "owner (apply_updates ttt_row4 winning_write) ''X'' = Some ''A''" by code_simp
  from d h have "status (apply_updates ttt_row4 winning_write) = ''completed''
      \<and> (\<forall>s. line_of (pboard (apply_updates ttt_row4 winning_write)) s \<longrightarrow>
             winner_id (apply_updates ttt_row4 winning_write)
               = owner (apply_updates ttt_row4 winning_write) s)"
    unfolding Let_def by (simp only: if_True) blast
  with l o have "status (apply_updates ttt_row4 winning_write) = ''completed''"
    "winner_id (apply_updates ttt_row4 winning_write) = Some ''A''"
    by auto
  then show ?thesis
    using ttt_before_win_reachable ttt_before_win_view ttt_before_win_click c h by simp
qed

lemma reachable_row:
  assumes "reachable w" "comp_of w who = Some x"
  obtains r where "table w = [r]" "row_inv r" "compA_ok r (compA w)" "compB_ok r (compB w)"
proof -
  have iw: "inv w" using assms(1) by (rule reachable_inv)
  have ne: "table w \<noteq> []"
    using iw assms(2) by (cases rule: inv_table_cases) (auto simp: comp_of_def split: if_splits)
  from iw ne that show ?thesis
    by (cases rule: inv_table_cases) auto
qed

text \<open>
  Claim C4 fails for moves made on copies that are behind the table. A and B have joined
  and the board is empty. A clicks cell 0 and, before the change event of that write
  reaches A's component, cell 1: both clicks are accepted, both write an X, and the turn
  marker of the room is O after the first and O again after the second, so two X moves
  follow each other. If instead B's component receives the event of A's first move and B
  answers with O in cell 1, the second click of A, still made on the empty local board,
  is accepted and its write puts X into cell 1, which holds B's O in the table.
\<close>

theorem stale_moves_do_not_alternate:
  "comp_of ttt_joined True = Some (TTT ttt_creator_start)
   \<and> comp_of ttt_joined False = Some (TTT ttt_joiner_start)
   \<and> table ttt_joined = [ttt_row_joined]
   \<and> mySymbol ttt_creator_start = ''X''
   \<and> handleClick ttt_creator_start 0 1 = Some click0_write
   \<and> handleClick ttt_creator_start 1 2 = Some click1_write
   \<and> pturn (apply_updates ttt_row_joined click0_write) = ''O''
   \<and> pturn (apply_updates (apply_updates ttt_row_joined click0_write) click1_write) = ''O''
   \<and> handleClick
        (fst (ttt_on_update ttt_joiner_start (apply_updates ttt_row_joined click0_write))) 1 2
       = Some reply1_write
   \<and> cell_at (pboard (apply_updates (apply_updates ttt_row_joined click0_write) reply1_write)) 1
       = Str ''O''
   \<and> handleClick ttt_creator_start 1 3 = Some click1_write
   \<and> pboard (apply_updates
        (apply_updates (apply_updates ttt_row_joined click0_write) reply1_write) click1_write)
       = [Null, Str ''X'', Null, Null, Null, Null, Null, Null, Null]"
  by code_simp

text \<open>
  Claim C4, amended: for moves made on a current copy of the row. In the worlds the
  operations reach from the creation of the room when the change event of every write is
  delivered to both components before the next click, an accepted Tic-Tac-Toe move writes the mover's symbol into a cell that was empty and
  leaves every other cell of the board as it was, so no cell is ever marked twice; the
  symbol written is the turn marker, which is X or O, belongs to the mover (X to the
  creating player, O to the joining player), and is flipped by the write. When no move
  has been written yet the marker is X: the first move is the creating player's X on
  the empty board.
\<close>

theorem ttt_moves_alternate:
  assumes "reachable w" and "i < 9" and "comp_of w who = Some (TTT c)"
    and "handleClick c i now = Some u"
  shows "\<exists>r. table w = [r] \<and> table (click_step w who i now) = [apply_updates r u]
     \<and> length (pboard r) = 9 \<and> cell_at (pboard r) i = Null
     \<and> pboard (apply_updates r u) = (pboard r)[i := Str (pturn r)]
     \<and> (pturn r = ''X'' \<or> pturn r = ''O'') \<and> pturn r = mySymbol c
     \<and> who = (pturn r = ''X'')
     \<and> pturn (apply_updates r u) = flip (pturn r)
     \<and> (if board (game_state r) = None
         then who \<and> pboard (apply_updates r u) = (replicate 9 Null)[i := Str ''X'']
         else True)"
proof -
  from assms(1,3) obtain r where r: "table w = [r]" "row_inv r" "compA_ok r (compA w)"
    "compB_ok r (compB w)"
    by (rule reachable_row)
  note ct = comp_of_ttt[OF r(2) r(3) r(4) assms(3)]
  note cs = click_sync[OF r(2) ct(1) ct(2) assms(2) assms(4) ct(3)]
  let ?r' = "apply_updates r u"
  have rid: "room_id (t_gameRoom c) = room_id r" and p1: "player1_id (t_gameRoom c) = player1_id r"
    using ct(2) by (simp_all add: ttt_sync_def)
  have tab: "table (click_step w who i now) = [?r']"
    by (simp add: click_step_eq[OF r(1) assms(3) rid assms(4)])
  have ti: "ttt_room_inv r" by (rule row_invD(5)[OF r(2) ct(1)])
  have turn: "pturn r = ''X'' \<or> pturn r = ''O''" and len: "length (pboard r) = 9"
    using ti by (simp_all add: ttt_room_inv_def)
  have pb: "pboard ?r' = (pboard r)[i := Str (pturn r)]" by (simp add: pboard_def cs(3))
  have pt: "pturn ?r' = flip (pturn r)"
    by (simp add: pturn_def cs(3) or_X_def truthy_def flip_def)
  have who: "who = (pturn r = ''X'')" using ct(4) cs(5) by simp
  have my: "pturn r = mySymbol c"
    using turn cs(5) p1 by (auto simp: mySymbol_def t_isPlayer1_def)
  have first: "board (game_state r) = None \<Longrightarrow>
      who \<and> pboard ?r' = (replicate 9 Null)[i := Str ''X'']"
  proof -
    assume n: "board (game_state r) = None"
    then have "pturn r = ''X''" "pboard r = replicate 9 Null"
      by (simp_all add: pturn_def pboard_def)
    then show ?thesis using who pb by simp
  qed
  show ?thesis
  proof (intro exI[of _ r] conjI)
    show "if board (game_state r) = None
         then who \<and> pboard ?r' = (replicate 9 Null)[i := Str ''X'']
         else True"
      using first by simp
  qed (fact r(1) tab len cs(2) pb turn my who pt)+
qed

theorem ttt_moves_alternate_witness:
  "reachable ttt_before_win \<and> comp_of ttt_before_win True = Some (TTT creator_view)
   \<and> handleClick creator_view 2 5 = Some winning_write
   \<and> cell_at (pboard ttt_row4) 2 = Null
   \<and> pboard (apply_updates ttt_row4 winning_write) = (pboard ttt_row4)[2 := Str ''X'']
   \<and> pturn ttt_row4 = ''X'' \<and> pturn (apply_updates ttt_row4 winning_write) = ''O''"
proof -
  have two: "(2::nat) < 9" by simp
  from ttt_moves_alternate[OF ttt_before_win_reachable two ttt_before_win_view
      ttt_before_win_click]
  have c: "cell_at (pboard ttt_row4) 2 = Null
     \<and> pboard (apply_updates ttt_row4 winning_write) = (pboard ttt_row4)[2 := Str (pturn ttt_row4)]
     \<and> pturn (apply_updates ttt_row4 winning_write) = flip (pturn ttt_row4)"
    by (simp add: ttt_before_win_table)
  have x: "pturn ttt_row4 = ''X''" by code_simp
  have f: "flip ''X'' = ''O''" by code_simp
  show ?thesis
    using c x f ttt_before_win_reachable ttt_before_win_view ttt_before_win_click by simp
qed

lemma inv_winner:
  assumes "inv w" "r \<in> set (table w)" "winner_id r \<noteq> None"
  shows "status r = ''completed'' \<and> decisive r"
  using assms(1)
proof (cases rule: inv_table_cases)
  case 1
  then show ?thesis using assms(2) by simp
next
  case (2 r0)
  then have r: "row_inv r" using assms(2) by simp
  have st: "status r = ''completed''" by (rule row_invD(4)[OF r assms(3)])
  have "decisive r"
  proof (cases "game_type r = ''tic_tac_toe''")
    case True
    then show ?thesis
      using row_invD(5)[OF r True] assms(3)
      by (simp add: decisive_def ttt_room_inv_def has_line_checkWinner)
  next
    case False
    have rr: "rps_room_inv r" using row_invD(6)[OF r False] by simp
    have "player1Choice (game_state r) \<noteq> None" "player2Choice (game_state r) \<noteq> None"
      "player1Choice (game_state r) \<noteq> player2Choice (game_state r)"
      using rr st assms(3) by (simp_all add: rps_room_inv_def)
    then show ?thesis using False by (auto simp: decisive_def)
  qed
  with st show ?thesis by simp
qed

lemma completed_frozen:
  assumes "inv w" "table w = [r]" "status r = ''completed''" "enabled w a"
  shows "table (step w a) = table w"
proof -
  have i: "row_inv r" "compA_ok r (compA w)" "compB_ok r (compB w)"
    using assms(1,2) by (simp_all add: inv_def)
  show ?thesis
  proof (cases a)
    case (Create usr gt rid now)
    then show ?thesis using assms(2,4) by simp
  next
    case (Join usr room)
    then show ?thesis using enabled_join_row[OF assms(1), of usr room] assms(2,3,4) by simp
  next
    case (Click who i now)
    show ?thesis
    proof (cases "\<exists>c. comp_of w who = Some (TTT c)")
      case False
      then show ?thesis using Click
        by (auto simp: click_step_def split: option.splits component.splits)
    next
      case True
      then obtain c where c: "comp_of w who = Some (TTT c)" by auto
      have "t_gameState c = r" using comp_of_ttt(2)[OF i c] by (simp add: ttt_sync_def)
      then have "handleClick c i now = None" using assms(3) by (simp add: handleClick_def)
      then show ?thesis using Click c by (simp add: click_step_def)
    qed
  next
    case (Choose who ch now)
    from assms(4) Choose obtain c where c: "comp_of w who = Some (RPS c)"
      by (auto split: option.splits component.splits)
    note cr = comp_of_rps[OF i c]
    have rr: "rps_room_inv r" using row_invD(6)[OF i(1)] cr(1) by simp
    have "r_myChoice c = slot who (game_state r)" using cr(2) by (simp add: rps_sync_def slot_def)
    then have "truthy (r_myChoice c)"
      using rps_room_invD(3)[OF rr assms(3), of who]
        valid_choice_truthy[OF rps_room_invD(1)[OF rr, of who]] by simp
    then have "makeChoice c ch now = (c, None)" by (simp add: makeChoice_rejected)
    then show ?thesis using Choose c by (simp add: choose_step_def set_comp_same)
  qed
qed

text \<open>
  Claim C6 fails for moves made on copies that are behind the table. With the board
  X X - / O O - / - - - and X to move, A clicks cell 8. B's component receives the
  change event and B clicks cell 5, which completes the middle row: the room is
  completed with winner B. A's component has not received the event of A's own move
  and still shows X X - / O O - / - - - with X to move; A clicks cell 2, the click is
  accepted, and its write sets the winner to A on the room that is already completed:
  the winner is set a second time, and not on the transition into completed. And in the
  room that A completes by cell 2 and then, before the event arrives, marks in cell 5,
  the winner is A while the board of the room has no line.
\<close>

theorem stale_win_replaces_winner:
  "comp_of ttt_before_win True = Some (TTT creator_view)
   \<and> comp_of ttt_before_win False = Some (TTT joiner_view)
   \<and> table ttt_before_win = [ttt_row4]
   \<and> handleClick creator_view 8 5 = Some corner_write
   \<and> handleClick (fst (ttt_on_update joiner_view (apply_updates ttt_row4 corner_write))) 5 6
       = Some joiner_win_write
   \<and> status (apply_updates (apply_updates ttt_row4 corner_write) joiner_win_write)
       = ''completed''
   \<and> winner_id (apply_updates (apply_updates ttt_row4 corner_write) joiner_win_write)
       = Some ''B''
   \<and> handleClick creator_view 2 7 = Some (winning_write\<lparr>u_completed_at := Some 7\<rparr>)
   \<and> winner_id (apply_updates
        (apply_updates (apply_updates ttt_row4 corner_write) joiner_win_write)
        (winning_write\<lparr>u_completed_at := Some 7\<rparr>)) = Some ''A''
   \<and> winner_id (apply_updates (apply_updates ttt_row4 winning_write) late_write) = Some ''A''
   \<and> \<not> decisive (apply_updates (apply_updates ttt_row4 winning_write) late_write)"
  by code_simp

text \<open>
  Claim C6, amended: for operations that run on a current copy of the row. In every world
  the operations (createRoom, joinRoom, a Tic-Tac-Toe move, a Rock-Paper-Scissors choice)
  reach when the change event of every write is delivered to both components before the
  next operation, the winner of the room is non-null only if the
  status is completed and the terminal check of the game is decisive (a completed line
  on the board, or two recorded choices that differ); and an operation changes the
  winner only from null, only when the status was not completed before, and only
  together with the transition into completed.
\<close>

theorem winner_only_on_decisive_completion:
  assumes "reachable w"
  shows "(\<forall>r \<in> set (table w). winner_id r \<noteq> None \<longrightarrow> status r = ''completed'' \<and> decisive r)
    \<and> (\<forall>a. enabled w a \<longrightarrow>
          (\<forall>r \<in> set (table w). \<forall>r' \<in> set (table (step w a)).
             winner_id r' \<noteq> winner_id r \<longrightarrow>
               winner_id r = None \<and> status r \<noteq> ''completed''
               \<and> status r' = ''completed'' \<and> decisive r'))"
proof (intro conjI ballI allI impI)
  fix r assume "r \<in> set (table w)" "winner_id r \<noteq> None"
  then show "status r = ''completed''" "decisive r"
    using inv_winner[OF reachable_inv[OF assms]] by simp_all
next
  fix a r r'
  assume a: "enabled w a" and r: "r \<in> set (table w)" and r': "r' \<in> set (table (step w a))"
    and d: "winner_id r' \<noteq> winner_id r"
  have iw: "inv w" by (rule reachable_inv[OF assms])
  have iw': "inv (step w a)" by (rule reachable_inv[OF reachable.next_step[OF assms a]])
  from iw r have t: "table w = [r]" by (cases rule: inv_table_cases) auto
  show nc: "status r \<noteq> ''completed''"
  proof
    assume "status r = ''completed''"
    from completed_frozen[OF iw t this a] r' t d show False by simp
  qed
  show w0: "winner_id r = None"
    using inv_winner[OF iw r] nc by (cases "winner_id r") auto
  then have "winner_id r' \<noteq> None" using d by simp
  from inv_winner[OF iw' r' this] show "status r' = ''completed''" "decisive r'" by simp_all
qed

theorem winner_only_on_decisive_completion_witness:
  "reachable ttt_before_win \<and> enabled ttt_before_win (Click True 2 5)
   \<and> table ttt_before_win = [ttt_row4]
   \<and> table (step ttt_before_win (Click True 2 5)) = [apply_updates ttt_row4 winning_write]
   \<and> winner_id (apply_updates ttt_row4 winning_write) = Some ''A''
   \<and> winner_id ttt_row4 = None \<and> status ttt_row4 \<noteq> ''completed''
   \<and> status (apply_updates ttt_row4 winning_write) = ''completed''
   \<and> decisive (apply_updates ttt_row4 winning_write)"
proof -
  have e: "enabled ttt_before_win (Click True 2 5)" by simp
  have t: "table (step ttt_before_win (Click True 2 5)) = [apply_updates ttt_row4 winning_write]"
    by code_simp
  have w: "winner_id (apply_updates ttt_row4 winning_write) = Some ''A''" by code_simp
  have n: "winner_id ttt_row4 = None" by code_simp
  from winner_only_on_decisive_completion[OF ttt_before_win_reachable]
  have "\<forall>r \<in> set (table ttt_before_win).
          \<forall>r' \<in> set (table (step ttt_before_win (Click True 2 5))).
             winner_id r' \<noteq> winner_id r \<longrightarrow>
               winner_id r = None \<and> status r \<noteq> ''completed''
               \<and> status r' = ''completed'' \<and> decisive r'"
    using e by blast
  then have "status ttt_row4 \<noteq> ''completed''
     \<and> status (apply_updates ttt_row4 winning_write) = ''completed''
     \<and> decisive (apply_updates ttt_row4 winning_write)"
    unfolding t ttt_before_win_table using w n by simp
  then show ?thesis
    using ttt_before_win_reachable e ttt_before_win_table t w n by simp
qed

lemma rps_joined_reachable: "reachable rps_joined"
  unfolding rps_joined_def
proof (rule reachable_run[OF reachable.start])
  show "all_enabled world_init
     [Create ''A'' ''rock_paper_scissors'' ''r2'' 0, Join ''B'' rps_room0]" by code_simp
qed

text \<open>
  Claim C3, evaluated. Player A creates a Rock-Paper-Scissors room and player B joins.
  B chooses rock, then A chooses scissors: rock beats scissors, so B (player2) is the
  winner, and the write that completes the room sets the winner to null: the component
  of the creating player takes player2 from its \<^verbatim>\<open>gameRoom\<close> prop, the row as it was
  inserted. In the mirrored game (A rock, B scissors) the winner is A, and when the
  joining player completes the room the winner is right.
\<close>

theorem rps_creator_second_loses_winner_null:
  "reachable rps_creator_loses
   \<and> outcome rps_creator_loses = [(Some ''scissors'', Some ''rock'', ''completed'', None)]
   \<and> map player2_id (table rps_creator_loses) = [Some ''B'']
   \<and> winConditions ''rock'' = Some ''scissors''
   \<and> outcome rps_joiner_loses = [(Some ''rock'', Some ''scissors'', ''completed'', Some ''A'')]"
proof -
  have "all_enabled rps_joined [Choose False ''rock'' 1, Choose True ''scissors'' 2]"
    by code_simp
  then have "reachable rps_creator_loses"
    unfolding rps_creator_loses_def by (rule reachable_run[OF rps_joined_reachable])
  moreover have "outcome rps_creator_loses = [(Some ''scissors'', Some ''rock'', ''completed'', None)]"
    by code_simp
  moreover have "map player2_id (table rps_creator_loses) = [Some ''B'']" by code_simp
  moreover have "winConditions ''rock'' = Some ''scissors''" by code_simp
  moreover have "outcome rps_joiner_loses = [(Some ''rock'', Some ''scissors'', ''completed'', Some ''A'')]"
    by code_simp
  ultimately show ?thesis by simp
qed

lemma ttt_joined_reachable: "reachable ttt_joined"
  unfolding ttt_joined_def
proof (rule reachable_run[OF reachable.start])
  show "all_enabled world_init [Create ''A'' ''tic_tac_toe'' ''r1'' 0, Join ''B'' ttt_room0]"
    by code_simp
qed

lemma ttt_no_winner_no_stats:
  "\<not> truthy (winner_id updated) \<Longrightarrow> snd (ttt_on_update c updated) = None"
  by (simp add: ttt_on_update_def Let_def)

text \<open>
  Claim C8, evaluated. A Tic-Tac-Toe game played to a draw (X O X / X O O / O X X)
  writes the row with status completed and winner null. The change handler of the
  Tic-Tac-Toe component calls \<^verbatim>\<open>updateStats\<close> only inside
  \<^verbatim>\<open>if (updated.winner_id)\<close>, so on this event it makes no call and the statistics
  of the participant stay as they were: \<^verbatim>\<open>games_played\<close> is not incremented. The
  Rock-Paper-Scissors handler, on its draw, calls \<^verbatim>\<open>updateStats(false)\<close>.
\<close>

theorem ttt_draw_not_counted:
  "reachable ttt_drawn \<and> table ttt_drawn = [ttt_draw_row]
   \<and> status ttt_draw_row = ''completed'' \<and> winner_id ttt_draw_row = None
   \<and> snd (ttt_on_update (ttt_mount (Some ''A'') ttt_room0) ttt_draw_row) = None
   \<and> stats_effect (Some ''A'')
        (snd (ttt_on_update (ttt_mount (Some ''A'') ttt_room0) ttt_draw_row)) stats0 ''A''
      = Some \<lparr>games_played = 3, games_won = 1\<rparr>
   \<and> table rps_drawn = [rps_draw_row]
   \<and> snd (rps_on_update (rps_mount (Some ''A'') rps_room0) rps_draw_row) = Some False
   \<and> stats_effect (Some ''A'')
        (snd (rps_on_update (rps_mount (Some ''A'') rps_room0) rps_draw_row)) stats0 ''A''
      = Some \<lparr>games_played = 4, games_won = 1\<rparr>"
proof -
  have "all_enabled ttt_joined
     [Click True 0 1, Click False 1 2, Click True 2 3, Click False 4 4, Click True 3 5,
      Click False 5 6, Click True 7 7, Click False 6 8, Click True 8 9]"
    by code_simp
  then have r: "reachable ttt_drawn"
    unfolding ttt_drawn_def by (rule reachable_run[OF ttt_joined_reachable])
  have t: "table ttt_drawn = [ttt_draw_row]" by code_simp
  have s: "status ttt_draw_row = ''completed''" "winner_id ttt_draw_row = None"
    by (simp_all add: ttt_draw_row_def)
  have n: "snd (ttt_on_update (ttt_mount (Some ''A'') ttt_room0) ttt_draw_row) = None"
    by (rule ttt_no_winner_no_stats) (simp add: s truthy_def)
  have e: "stats_effect (Some ''A'') None stats0 ''A'' = Some \<lparr>games_played = 3, games_won = 1\<rparr>"
    by (simp add: stats_effect_def stats0_def)
  have t2: "table rps_drawn = [rps_draw_row]" by code_simp
  have n2: "snd (rps_on_update (rps_mount (Some ''A'') rps_room0) rps_draw_row) = Some False"
    by code_simp
  have e2: "stats_effect (Some ''A'') (Some False) stats0 ''A''
      = Some \<lparr>games_played = 4, games_won = 1\<rparr>"
    by (simp add: stats_effect_def updateStats_def stats0_def)
  show ?thesis
    using r t s n e t2 n2 e2 by simp
qed

text \<open>
  Claim C7 fails for a click that is illegal in the table and legal in the component's
  copy. A and B have joined and the board is empty. A clicks cell 0: the write marks
  the cell and gives the turn to O. Before the change event of that write reaches A's
  component, A clicks again. The click on cell 1 is out of turn, and the click on cell 0
  is on an occupied cell; both are accepted and send a write, and the write of the click
  on cell 1 changes the board of the room.
\<close>

theorem stale_illegal_click_accepted:
  "comp_of ttt_joined True = Some (TTT ttt_creator_start)
   \<and> table ttt_joined = [ttt_row_joined]
   \<and> mySymbol ttt_creator_start = ''X''
   \<and> handleClick ttt_creator_start 0 1 = Some click0_write
   \<and> pturn (apply_updates ttt_row_joined click0_write) = ''O''
   \<and> cell_at (pboard (apply_updates ttt_row_joined click0_write)) 0 = Str ''X''
   \<and> handleClick ttt_creator_start 1 2 = Some click1_write
   \<and> handleClick ttt_creator_start 0 2 = Some click0_write
   \<and> marks (db_update (db_update [ttt_row_joined] ''r1'' click0_write) ''r1'' click1_write)
       \<noteq> marks (db_update [ttt_row_joined] ''r1'' click0_write)"
  by code_simp

text \<open>
  Claim C7, amended. A Tic-Tac-Toe click is ignored, with no write, no change of the
  local state or of the table and no error, when in the state the component holds the
  cell has a mark, the status is not in_progress, a winner is shown, or the turn marker
  is the symbol of the other side. The component judges the click on its own copy of the
  row. A user who is neither player1 nor player2 has no component to click in:
  \<^verbatim>\<open>Games\<close> mounts one for the creating player and for the player whose join
  succeeded, so in every world the operations reach the user of a component is player1
  or player2 of its room.
\<close>

theorem illegal_move_ignored:
  assumes "truthy_cell (cell_at (t_board c) i) \<or> truthy (t_winner c)
           \<or> status (t_gameState c) \<noteq> ''in_progress'' \<or> t_currentTurn c = opponentSymbol c"
  shows "handleClick c i now = None
     \<and> (if comp_of w who = Some (TTT c) then click_step w who i now = w else True)
     \<and> (if reachable v \<and> comp_of v side = Some (TTT d)
         then \<exists>r. table v = [r] \<and> participant r d
         else True)"
proof -
  have a: "handleClick c i now = None"
    using assms by (auto simp: handleClick_def opponentSymbol_def)
  have b: "\<exists>r. table v = [r] \<and> participant r d"
    if "reachable v" "comp_of v side = Some (TTT d)"
  proof -
    from that obtain r where r: "table v = [r]" "row_inv r" "compA_ok r (compA v)"
      "compB_ok r (compB v)" by (rule reachable_row)
    from comp_of_ttt(3)[OF r(2-4) that(2)] r(1) show ?thesis by simp
  qed
  show ?thesis using a b by (simp add: click_step_def)
qed

theorem illegal_move_ignored_witness:
  "truthy_cell (cell_at (t_board creator_view) 0)
   \<and> comp_of ttt_before_win True = Some (TTT creator_view)
   \<and> handleClick creator_view 0 5 = None
   \<and> click_step ttt_before_win True 0 5 = ttt_before_win
   \<and> reachable ttt_before_win \<and> table ttt_before_win = [ttt_row4]
   \<and> participant ttt_row4 creator_view"
proof -
  have h: "truthy_cell (cell_at (t_board creator_view) 0)" by code_simp
  then have "truthy_cell (cell_at (t_board creator_view) 0) \<or> truthy (t_winner creator_view)
           \<or> status (t_gameState creator_view) \<noteq> ''in_progress''
           \<or> t_currentTurn creator_view = opponentSymbol creator_view" by simp
  from illegal_move_ignored[OF this, of 5 ttt_before_win True ttt_before_win True creator_view]
  show ?thesis
    using h ttt_before_win_view ttt_before_win_reachable ttt_before_win_table by simp
qed

lemma beats_winConditions: "beats a b = (winConditions a = Some b)"
  by (auto simp: beats_def winConditions_def)

text \<open>
  Claim C5 fails when the component's copy of the row is behind the table. A and B have
  joined; A chooses rock and the write is in the table (player1Choice is rock). B's
  component has not yet received the change event, so its copy has no choice of A; B
  chooses paper. The write of B sets no status and no winner, and it replaces
  \<^verbatim>\<open>game_state\<close> by B's copy with B's slot: the room stays in_progress, with
  A's persisted choice gone.
\<close>

theorem stale_second_choice_not_completed:
  "comp_of rps_joined True = Some (RPS rps_creator_view)
   \<and> comp_of rps_joined False = Some (RPS rps_joiner_view)
   \<and> table rps_joined = [rps_row_joined]
   \<and> snd (makeChoice rps_creator_view ''rock'' 1) = Some rock_write
   \<and> player1Choice (game_state (apply_updates rps_row_joined rock_write)) = Some ''rock''
   \<and> snd (makeChoice rps_joiner_view ''paper'' 2) = Some stale_paper_write
   \<and> u_status stale_paper_write = None
   \<and> status (apply_updates (apply_updates rps_row_joined rock_write) stale_paper_write)
       = ''in_progress''
   \<and> player1Choice (game_state
        (apply_updates (apply_updates rps_row_joined rock_write) stale_paper_write)) = None"
  by code_simp

text \<open>
  Claim C5, amended. \<^verbatim>\<open>makeChoice\<close> sends no write when there is no user or the
  component has a choice of its own already. Otherwise it records the choice locally
  and writes the component's copy of \<^verbatim>\<open>game_state\<close> with the caller's slot set. If
  the opponent's slot of that copy (the row as last delivered by the change channel,
  not the row read at write time) is populated, the same write sets the status to
  completed, leaves the winner unset when the two choices are equal, and sets it to
  player1 when player1's choice beats player2's, and to the caller when the caller is
  the joining player and the caller's choice beats player1's. If the opponent's slot of
  the copy is empty, the write sets neither status nor winner.
\<close>

theorem makeChoice_from_local_copy:
  fixes c :: RockPaperScissors and ch :: string and now :: nat
  defines "gs \<equiv> game_state (r_gameState c)"
  shows "(if r_user c = None \<or> truthy (r_myChoice c) then makeChoice c ch now = (c, None)
          else \<exists>u. makeChoice c ch now = (c\<lparr>r_myChoice := Some ch\<rparr>, Some u)
             \<and> u_game_state u = Some (set_slot (r_isPlayer1 c) ch gs)
             \<and> (case slot (\<not> r_isPlayer1 c) gs of
                   None \<Rightarrow> u_status u = None \<and> u_winner_id u = None
                 | Some other \<Rightarrow>
                     if other = [] then u_status u = None \<and> u_winner_id u = None
                     else u_status u = Some ''completed''
                       \<and> (if other = ch then u_winner_id u = None
                           else if r_isPlayer1 c then
                             (if beats ch other
                              then u_winner_id u = Some (Some (player1_id (r_gameRoom c)))
                              else True)
                           else
                             (if beats other ch
                              then u_winner_id u = Some (Some (player1_id (r_gameRoom c)))
                              else u_winner_id u = Some (player2_id (r_gameRoom c))))))"
proof (cases "r_user c = None \<or> truthy (r_myChoice c)")
  case True
  then show ?thesis by (simp add: makeChoice_rejected)
next
  case False
  then have u: "r_user c \<noteq> None" and m: "\<not> truthy (r_myChoice c)" by simp_all
  show ?thesis
  proof (cases "truthy (slot (\<not> r_isPlayer1 c) gs)")
    case f: False
    then have "\<not> truthy (slot (\<not> r_isPlayer1 c) (game_state (r_gameState c)))"
      by (simp add: gs_def)
    from makeChoice_first[OF u m this, of ch now] show ?thesis
      using False f by (auto simp: gs_def truthy_def split: option.splits)
  next
    case t: True
    then obtain x where x: "slot (\<not> r_isPlayer1 c) gs = Some x" "x \<noteq> []"
      by (auto simp: truthy_def split: option.splits)
    then have "slot (\<not> r_isPlayer1 c) (game_state (r_gameState c)) = Some x"
      by (simp add: gs_def)
    from makeChoice_second[OF u m this x(2), of ch now] show ?thesis
      using False x by (auto simp: gs_def beats_winConditions)
  qed
qed

theorem makeChoice_from_local_copy_witness:
  "makeChoice (rps_joiner_view\<lparr>r_gameState := apply_updates rps_row_joined rock_write\<rparr>)
      ''paper'' 2
   = (rps_joiner_view\<lparr>r_gameState := apply_updates rps_row_joined rock_write,
                      r_myChoice := Some ''paper''\<rparr>,
      Some \<lparr>u_game_state =
              Some \<lparr>board = None, currentTurn = None, player1Choice = Some ''rock'',
                    player2Choice = Some ''paper''\<rparr>,
            u_status = Some ''completed'', u_winner_id = Some (Some ''B''),
            u_completed_at = Some 2\<rparr>)
   \<and> makeChoice (rps_joiner_view\<lparr>r_myChoice := Some ''rock''\<rparr>) ''paper'' 2
       = (rps_joiner_view\<lparr>r_myChoice := Some ''rock''\<rparr>, None)"
proof -
  have a: "truthy (r_myChoice (rps_joiner_view\<lparr>r_myChoice := Some ''rock''\<rparr>))"
    by code_simp
  from makeChoice_from_local_copy[of "rps_joiner_view\<lparr>r_myChoice := Some ''rock''\<rparr>" "''paper''" 2]
  have r: "makeChoice (rps_joiner_view\<lparr>r_myChoice := Some ''rock''\<rparr>) ''paper'' 2
       = (rps_joiner_view\<lparr>r_myChoice := Some ''rock''\<rparr>, None)"
    using a by simp
  have b: "makeChoice (rps_joiner_view\<lparr>r_gameState := apply_updates rps_row_joined rock_write\<rparr>)
      ''paper'' 2
   = (rps_joiner_view\<lparr>r_gameState := apply_updates rps_row_joined rock_write,
                      r_myChoice := Some ''paper''\<rparr>,
      Some \<lparr>u_game_state =
              Some \<lparr>board = None, currentTurn = None, player1Choice = Some ''rock'',
                    player2Choice = Some ''paper''\<rparr>,
            u_status = Some ''completed'', u_winner_id = Some (Some ''B''),
            u_completed_at = Some 2\<rparr>)"
    by code_simp
  show ?thesis using r b by simp
qed

text \<open>
  Claim C9 fails for a write computed from a copy that is behind the table. A and B
  have joined a Tic-Tac-Toe room. A clicks cell 0 and, before the change event of that
  write reaches A's component, cell 1: \<^verbatim>\<open>handleClick\<close> runs twice on the same
  empty local board, and the second write replaces the persisted board, which has X
  in cell 0, by a board with X in cell 1 only. In the same way, in a
  Rock-Paper-Scissors room, the write of B's paper computed from a copy without A's
  persisted rock removes player1Choice.
\<close>

theorem stale_write_removes_move:
  "comp_of ttt_joined True = Some (TTT ttt_creator_start)
   \<and> table ttt_joined = [ttt_row_joined]
   \<and> handleClick ttt_creator_start 0 1 = Some click0_write
   \<and> handleClick ttt_creator_start 1 2 = Some click1_write
   \<and> marks (db_update [ttt_row_joined] ''r1'' click0_write)
       = [[Str ''X'', Null, Null, Null, Null, Null, Null, Null, Null]]
   \<and> marks (db_update (db_update [ttt_row_joined] ''r1'' click0_write) ''r1'' click1_write)
       = [[Null, Str ''X'', Null, Null, Null, Null, Null, Null, Null]]
   \<and> map (\<lambda>r. player1Choice (game_state r)) (db_update [rps_row_joined] ''r2'' rock_write)
       = [Some ''rock'']
   \<and> snd (makeChoice rps_joiner_view ''paper'' 2) = Some stale_paper_write
   \<and> map (\<lambda>r. player1Choice (game_state r))
         (db_update (db_update [rps_row_joined] ''r2'' rock_write) ''r2'' stale_paper_write)
       = [None]"
  by code_simp

lemma arr_set_other:
  "j \<noteq> i \<Longrightarrow> cell_at (arr_set xs i v) j = cell_at xs j"
  by (auto simp: arr_set_def cell_at_def nth_append)

lemma arr_set_same: "cell_at (arr_set xs i v) i = v"
  by (auto simp: arr_set_def cell_at_def nth_append)

text \<open>
  Claim C9, amended. A move write never removes a move from the copy of
  \<^verbatim>\<open>game_state\<close> it is computed from. The board written by an accepted
  Tic-Tac-Toe click has the turn marker in the clicked cell, which held no mark in the
  component's board, and every other cell as in the component's board. The
  \<^verbatim>\<open>game_state\<close> written by a Rock-Paper-Scissors choice has the caller's slot set
  and the opponent's slot, and every other key, as in the component's copy. So when the
  component's copy is the persisted \<^verbatim>\<open>game_state\<close>, the write adds exactly one move
  to the persisted state and removes none. (A write computed from a copy that is behind
  replaces the persisted state by that copy plus the new move.)
\<close>

theorem move_write_preserves_copy:
  shows "(if handleClick c i now = Some u \<and> t_board c = pboard r then
            \<not> truthy_cell (cell_at (pboard r) i)
            \<and> cell_at (pboard (apply_updates r u)) i = Str (t_currentTurn c)
            \<and> (\<forall>j. j \<noteq> i \<longrightarrow> cell_at (pboard (apply_updates r u)) j = cell_at (pboard r) j)
          else True)
     \<and> (if makeChoice d ch now2 = (d', Some v) \<and> game_state (r_gameState d) = game_state q then
            slot (r_isPlayer1 d) (game_state (apply_updates q v)) = Some ch
            \<and> slot (\<not> r_isPlayer1 d) (game_state (apply_updates q v))
                = slot (\<not> r_isPlayer1 d) (game_state q)
            \<and> board (game_state (apply_updates q v)) = board (game_state q)
            \<and> currentTurn (game_state (apply_updates q v)) = currentTurn (game_state q)
          else True)"
proof -
  have a: "handleClick c i now = Some u \<Longrightarrow> t_board c = pboard r \<Longrightarrow>
            \<not> truthy_cell (cell_at (pboard r) i)
            \<and> cell_at (pboard (apply_updates r u)) i = Str (t_currentTurn c)
            \<and> (\<forall>j. j \<noteq> i \<longrightarrow> cell_at (pboard (apply_updates r u)) j = cell_at (pboard r) j)"
  proof -
    assume h: "handleClick c i now = Some u" and b: "t_board c = pboard r"
    note hc = handleClick_accepted[OF h]
    have "pboard (apply_updates r u) = arr_set (pboard r) i (Str (t_currentTurn c))"
      using hc(6) b by (simp add: pboard_def apply_updates_def)
    then show ?thesis using hc(1) b by (simp add: arr_set_other arr_set_same)
  qed
  have b: "makeChoice d ch now2 = (d', Some v) \<Longrightarrow> game_state (r_gameState d) = game_state q \<Longrightarrow>
            slot (r_isPlayer1 d) (game_state (apply_updates q v)) = Some ch
            \<and> slot (\<not> r_isPlayer1 d) (game_state (apply_updates q v))
                = slot (\<not> r_isPlayer1 d) (game_state q)
            \<and> board (game_state (apply_updates q v)) = board (game_state q)
            \<and> currentTurn (game_state (apply_updates q v)) = currentTurn (game_state q)"
  proof -
    assume m: "makeChoice d ch now2 = (d', Some v)" and g: "game_state (r_gameState d) = game_state q"
    have n: "r_user d \<noteq> None" "\<not> truthy (r_myChoice d)"
    proof -
      show "r_user d \<noteq> None"
      proof
        assume "r_user d = None"
        then have "makeChoice d ch now2 = (d, None)" by (simp add: makeChoice_rejected)
        with m show False by simp
      qed
      show "\<not> truthy (r_myChoice d)"
      proof
        assume "truthy (r_myChoice d)"
        then have "makeChoice d ch now2 = (d, None)" by (simp add: makeChoice_rejected)
        with m show False by simp
      qed
    qed
    have "u_game_state v = Some (set_slot (r_isPlayer1 d) ch (game_state q))"
    proof (cases "truthy (slot (\<not> r_isPlayer1 d) (game_state (r_gameState d)))")
      case False
      from makeChoice_first[OF n this, of ch now2] m g show ?thesis by auto
    next
      case True
      then obtain x where x: "slot (\<not> r_isPlayer1 d) (game_state (r_gameState d)) = Some x"
        "x \<noteq> []" by (auto simp: truthy_def split: option.splits)
      from makeChoice_second[OF n x, of ch now2] m g show ?thesis by auto
    qed
    then have "game_state (apply_updates q v) = set_slot (r_isPlayer1 d) ch (game_state q)"
      by (simp add: apply_updates_def)
    then show ?thesis by simp
  qed
  show ?thesis using a b by simp
qed

theorem move_write_preserves_copy_witness:
  "handleClick creator_view 2 5 = Some winning_write \<and> t_board creator_view = pboard ttt_row4
   \<and> cell_at (pboard (apply_updates ttt_row4 winning_write)) 2 = Str ''X''
   \<and> cell_at (pboard (apply_updates ttt_row4 winning_write)) 4 = cell_at (pboard ttt_row4) 4
   \<and> makeChoice rps_creator_view ''rock'' 1
        = (rps_creator_view\<lparr>r_myChoice := Some ''rock''\<rparr>, Some rock_write)
   \<and> game_state (r_gameState rps_creator_view) = game_state rps_row_joined
   \<and> slot (r_isPlayer1 rps_creator_view) (game_state (apply_updates rps_row_joined rock_write))
       = Some ''rock''
   \<and> slot (\<not> r_isPlayer1 rps_creator_view) (game_state (apply_updates rps_row_joined rock_write))
       = slot (\<not> r_isPlayer1 rps_creator_view) (game_state rps_row_joined)"
proof -
  have h: "handleClick creator_view 2 5 = Some winning_write" by (rule ttt_before_win_click)
  have b: "t_board creator_view = pboard ttt_row4" by code_simp
  have m: "makeChoice rps_creator_view ''rock'' 1
        = (rps_creator_view\<lparr>r_myChoice := Some ''rock''\<rparr>, Some rock_write)" by code_simp
  have g: "game_state (r_gameState rps_creator_view) = game_state rps_row_joined"
    by (simp add: rps_creator_view_def)
  have t: "t_currentTurn creator_view = ''X''" by (simp add: creator_view_def)
  from move_write_preserves_copy[where c = creator_view and i = 2 and now = 5
      and u = winning_write and r = ttt_row4 and d = rps_creator_view and ch = "''rock''"
      and ?now2.0 = 1 and d' = "rps_creator_view\<lparr>r_myChoice := Some ''rock''\<rparr>"
      and v = rock_write and q = rps_row_joined]
  show ?thesis
    using h b m g t by simp
qed

lemma filter_key_single:
  "distinct (map f xs) \<Longrightarrow> r \<in> set xs \<Longrightarrow> filter (\<lambda>x. f x = f r) xs = [r]"
proof (induction xs)
  case Nil
  then show ?case by simp
next
  case (Cons a xs)
  show ?case
  proof (cases "a = r")
    case True
    have "f r \<notin> f ` set xs" using Cons.prems(1) True by simp
    then have "filter (\<lambda>x. f x = f r) xs = []"
      unfolding filter_empty_conv by (metis imageI)
    then show ?thesis using True by simp
  next
    case False
    then have "r \<in> set xs" using Cons.prems(2) by simp
    moreover have "f a \<noteq> f r" using Cons.prems(1) calculation by auto
    ultimately show ?thesis using Cons by simp
  qed
qed

lemma guarded_filter:
  assumes "distinct (map room_id tbl)" "r \<in> set tbl"
  shows "filter (\<lambda>x. room_id x = room_id r \<and> player2_id x = None) tbl
           = (if player2_id r = None then [r] else [])"
proof -
  have "filter (\<lambda>x. room_id x = room_id r \<and> player2_id x = None) tbl
          = filter (\<lambda>x. player2_id x = None) (filter (\<lambda>x. room_id x = room_id r) tbl)"
    by (simp add: conj_commute)
  then show ?thesis by (simp add: filter_key_single[OF assms])
qed

lemma guarded_map:
  assumes "distinct (map room_id tbl)" "r \<in> set tbl" "player2_id r = None"
  shows "map (\<lambda>x. if room_id x = room_id r \<and> player2_id x = None then joined x u else x) tbl
           = map (\<lambda>x. if room_id x = room_id r then joined x u else x) tbl"
proof (rule map_cong[OF refl])
  fix x assume x: "x \<in> set tbl"
  have "room_id x = room_id r \<Longrightarrow> x = r"
    using assms(1,2) x by (auto simp: distinct_map dest: inj_onD)
  then show "(if room_id x = room_id r \<and> player2_id x = None then joined x u else x)
              = (if room_id x = room_id r then joined x u else x)"
    using assms(3) by auto
qed

lemma joinRoom_success:
  assumes "distinct (map room_id tbl)" "r \<in> set tbl" "room_id room = room_id r"
    "\<not> truthy (player2_id room)" "player1_id room \<noteq> u" "player2_id r = None"
  shows "joinRoom conditional_update_single g tbl (Some u) room =
           (g\<lparr>activeGame := Some (joined r u), selectedGameType := Some (game_type room),
              isJoining := None\<rparr>,
            map (\<lambda>x. if room_id x = room_id r then joined x u else x) tbl)"
  using assms(3-6)
  by (simp add: joinRoom_def conditional_update_single_def update_single_def guarded_filter[OF assms(1,2)]
      guarded_map[OF assms(1,2,6), unfolded joined_def] joined_def)

lemma joinRoom_conflict:
  assumes "distinct (map room_id tbl)" "r \<in> set tbl" "room_id room = room_id r"
    "\<not> truthy (player2_id room)" "player1_id room \<noteq> u" "player2_id r \<noteq> None"
  shows "joinRoom conditional_update_single g tbl (Some u) room =
           (g\<lparr>alerts := alerts g @ [JoinFailedAlert], availableRooms := listOpenRooms tbl,
              isJoining := None\<rparr>, tbl)"
proof -
  from assms(6) obtain y where y: "player2_id r = Some y" by auto
  show ?thesis
    using assms(3-5) y
    by (simp add: joinRoom_def conditional_update_single_def update_single_def guarded_filter[OF assms(1,2)]
        loadAvailableRooms_def)
qed

lemma joined_table:
  fixes u :: string
  assumes "distinct (map room_id tbl)" "r \<in> set tbl"
  defines "tbl1 \<equiv> map (\<lambda>x. if room_id x = room_id r then joined x u else x) tbl"
  shows "distinct (map room_id tbl1)" "joined r u \<in> set tbl1"
    "filter (\<lambda>x. room_id x = room_id r) tbl1 = [joined r u]"
proof -
  have m: "map room_id tbl1 = map room_id tbl"
    unfolding tbl1_def by (induction tbl) auto
  show d: "distinct (map room_id tbl1)" using assms(1) m by simp
  show i: "joined r u \<in> set tbl1"
    unfolding tbl1_def using assms(2) by (auto simp: image_iff intro!: bexI[of _ r])
  show "filter (\<lambda>x. room_id x = room_id r) tbl1 = [joined r u]"
    using filter_key_single[OF d i] by simp
qed

text \<open>
  On the conditional update of the spec \<^verbatim>\<open>joinRoom\<close> does what it is written for. Let
  the room be in the table (one row per id) and let two users \<open>u1\<close> and \<open>u2\<close>, neither
  the creator, both hold a copy of it with no second player. If the slot is free at write
  time, the attempt of \<open>u1\<close> sets player2 to \<open>u1\<close> and the status to in_progress in
  that row only and makes it the active game, and the attempt of \<open>u2\<close> served next
  selects no row: the table and the active game of \<open>u2\<close> are unchanged, the failure
  alert is raised and the list of open rooms is loaded again. If the slot is taken at
  write time, the attempt changes nothing, alerts and reloads the list.
\<close>

lemma joinRoom_on_conditional_update:
  assumes "distinct (map room_id tbl)" and "r \<in> set tbl" and "room_id room = room_id r"
    and "\<not> truthy (player2_id room)" and "player1_id room \<noteq> u1"
    and "player1_id room \<noteq> u2"
  defines "tbl1 \<equiv> map (\<lambda>x. if room_id x = room_id r then joined x u1 else x) tbl"
  shows "if player2_id r = None then
           joinRoom conditional_update_single g1 tbl (Some u1) room =
             (g1\<lparr>activeGame := Some (joined r u1), selectedGameType := Some (game_type room),
                 isJoining := None\<rparr>, tbl1)
           \<and> joinRoom conditional_update_single g2 tbl1 (Some u2) room =
               (g2\<lparr>alerts := alerts g2 @ [JoinFailedAlert],
                   availableRooms := listOpenRooms tbl1, isJoining := None\<rparr>, tbl1)
           \<and> filter (\<lambda>x. room_id x = room_id r) tbl1 = [joined r u1]
         else
           joinRoom conditional_update_single g1 tbl (Some u1) room =
             (g1\<lparr>alerts := alerts g1 @ [JoinFailedAlert], availableRooms := listOpenRooms tbl,
                 isJoining := None\<rparr>, tbl)"
proof (cases "player2_id r = None")
  case True
  note jt = joined_table[OF assms(1,2), of u1, folded tbl1_def]
  have a: "joinRoom conditional_update_single g1 tbl (Some u1) room =
             (g1\<lparr>activeGame := Some (joined r u1), selectedGameType := Some (game_type room),
                 isJoining := None\<rparr>, tbl1)"
    unfolding tbl1_def by (rule joinRoom_success[OF assms(1-5) True])
  have "room_id room = room_id (joined r u1)" "player2_id (joined r u1) \<noteq> None"
    using assms(3) by simp_all
  from joinRoom_conflict[OF jt(1) jt(2) this(1) assms(4) assms(6) this(2), of g2]
  have b: "joinRoom conditional_update_single g2 tbl1 (Some u2) room =
               (g2\<lparr>alerts := alerts g2 @ [JoinFailedAlert],
                   availableRooms := listOpenRooms tbl1, isJoining := None\<rparr>, tbl1)" .
  from a b jt(3) show ?thesis
    by (subst if_P[OF True]) (intro conjI)
next
  case False
  from joinRoom_conflict[OF assms(1-5) False, of g1] show ?thesis
    by (subst if_not_P[OF False])
qed


lemma supabase_refuses_eq_null:
  "supabase_update_single u tbl rid (Eq_player2 None) f = (tbl, None)"
  by (simp add: supabase_update_single_def)

lemma policy_excludes_joiner:
  assumes "\<forall>r \<in> set tbl. room_id r = rid \<longrightarrow> \<not> update_policy u r"
  shows "supabase_update_single u tbl rid flt f = (tbl, None)"
proof (cases "read_filter flt")
  case None
  then show ?thesis by (simp add: supabase_update_single_def)
next
  case (Some holds)
  have e: "filter (\<lambda>r. room_id r = rid \<and> holds (player2_id r) \<and> update_policy u r) tbl = []"
    using assms by (auto simp: filter_empty_conv)
  have n: "\<not> (\<exists>r \<in> set tbl. room_id r = rid \<and> holds (player2_id r) \<and> update_policy u r
                 \<and> \<not> update_policy u (f r))"
    using assms by auto
  show ?thesis
    unfolding supabase_update_single_def Some option.case if_not_P[OF n] update_single_def e
    by simp
qed

lemma joinRoom_supabase:
  "joinRoom supabase_update_single g tbl usr room =
     (case usr of
        None \<Rightarrow> (g, tbl)
      | Some u \<Rightarrow>
          if player1_id room = u then (g\<lparr>alerts := alerts g @ [OwnRoomAlert]\<rparr>, tbl)
          else if truthy (player2_id room)
          then (g\<lparr>alerts := alerts g @ [RoomFullAlert], availableRooms := listOpenRooms tbl\<rparr>,
                tbl)
          else (g\<lparr>alerts := alerts g @ [JoinFailedAlert], availableRooms := listOpenRooms tbl,
                  isJoining := None\<rparr>, tbl))"
  by (simp add: joinRoom_def supabase_refuses_eq_null loadAvailableRooms_def Let_def
      split: option.splits)

text \<open>
  Claim C1 fails on the code: no join succeeds. The request of \<^verbatim>\<open>joinRoom\<close> filters
  with \<^verbatim>\<open>.eq('player2_id', null)\<close>, which the datastore of the repository cannot read
  as a condition on a uuid column, so every request is refused: for every table, user and
  room \<^verbatim>\<open>joinRoom\<close> leaves the table and the active game as they were. With two open
  rooms of A, the attempts of B and of C on the Tic-Tac-Toe room both end in the failure
  alert and a reloaded list, and player2 is never set. The list query of the same screen
  uses \<^verbatim>\<open>.is('player2_id', null)\<close>; with that filter the request of B is read and
  still selects no row, because the update policy of the table admits player1 and
  player2 only. On the conditional update of the spec the same handler joins B.
\<close>

theorem joinRoom_never_joins:
  "snd (joinRoom supabase_update_single g tbl usr room) = tbl
   \<and> activeGame (fst (joinRoom supabase_update_single g tbl usr room)) = activeGame g
   \<and> listOpenRooms two_rooms = [ttt_room0, rps_room0]
   \<and> joinRoom supabase_update_single games_init two_rooms (Some ''B'') ttt_room0
       = (games_init\<lparr>alerts := [JoinFailedAlert], availableRooms := [ttt_room0, rps_room0]\<rparr>,
          two_rooms)
   \<and> joinRoom supabase_update_single games_init two_rooms (Some ''C'') ttt_room0
       = (games_init\<lparr>alerts := [JoinFailedAlert], availableRooms := [ttt_room0, rps_room0]\<rparr>,
          two_rooms)
   \<and> supabase_update_single ''B'' two_rooms ''r1'' Is_player2_null (\<lambda>r. joined r ''B'')
       = (two_rooms, None)
   \<and> joinRoom conditional_update_single games_init two_rooms (Some ''B'') ttt_room0
       = (games_init\<lparr>activeGame := Some (joined ttt_room0 ''B''),
                      selectedGameType := Some ''tic_tac_toe''\<rparr>,
          [rps_room0, joined ttt_room0 ''B''])"
proof -
  have a: "snd (joinRoom supabase_update_single g tbl usr room) = tbl"
    by (simp add: joinRoom_supabase split: option.splits)
  have b: "activeGame (fst (joinRoom supabase_update_single g tbl usr room)) = activeGame g"
    by (simp add: joinRoom_supabase split: option.splits)
  have l: "listOpenRooms two_rooms = [ttt_room0, rps_room0]" by code_simp
  have c: "joinRoom supabase_update_single games_init two_rooms (Some ''B'') ttt_room0
       = (games_init\<lparr>alerts := [JoinFailedAlert], availableRooms := [ttt_room0, rps_room0]\<rparr>,
          two_rooms)" by code_simp
  have d: "joinRoom supabase_update_single games_init two_rooms (Some ''C'') ttt_room0
       = (games_init\<lparr>alerts := [JoinFailedAlert], availableRooms := [ttt_room0, rps_room0]\<rparr>,
          two_rooms)" by code_simp
  have e: "supabase_update_single ''B'' two_rooms ''r1'' Is_player2_null (\<lambda>r. joined r ''B'')
       = (two_rooms, None)" by code_simp
  have f: "joinRoom conditional_update_single games_init two_rooms (Some ''B'') ttt_room0
       = (games_init\<lparr>activeGame := Some (joined ttt_room0 ''B''),
                      selectedGameType := Some ''tic_tac_toe''\<rparr>,
          [rps_room0, joined ttt_room0 ''B''])" by code_simp
  show ?thesis using a b l c d e f by simp
qed

text \<open>
  The winner a Rock-Paper-Scissors choice writes when it completes the room, in every
  reachable world: null on equal choices, player1 when player1's choice beats
  player2's, and otherwise player2 if the joining player wrote and null if the
  creating player wrote.
\<close>

lemma rps_completion_winner:
  assumes "reachable w" and "enabled w (Choose who ch now)"
    and "comp_of w who = Some (RPS c)" and "makeChoice c ch now = (c', Some u)"
    and "table w = [r]" and "slot (\<not> who) (game_state r) = Some x"
  shows "status (apply_updates r u) = ''completed''
     \<and> slot who (game_state (apply_updates r u)) = Some ch
     \<and> slot (\<not> who) (game_state (apply_updates r u)) = Some x
     \<and> winner_id (apply_updates r u) =
         (if ch = x then None
          else if beats (if who then ch else x) (if who then x else ch) then Some (player1_id r)
          else if who then None else player2_id r)"
proof -
  have iw: "inv w" using assms(1) by (rule reachable_inv)
  have i: "row_inv r" "compA_ok r (compA w)" "compB_ok r (compB w)"
    using iw assms(5) by (simp_all add: inv_def)
  note cr = comp_of_rps[OF i assms(3)]
  have gs: "r_gameState c = r" and p1: "player1_id (r_gameRoom c) = player1_id r"
    using cr(2) by (simp_all add: rps_sync_def)
  have p2: "player2_id r \<noteq> None"
    using assms(2,3) gs by (auto simp: truthy_def split: option.splits)
  have vch: "valid_choice (Some ch)" using assms(2) by (auto simp: valid_choice_def)
  note cs = choose_sync[OF i(1) cr(1) cr(2) cr(4) cr(3) p2 vch assms(4)]
  have rr: "rps_room_inv r" using row_invD(6)[OF i(1)] cr(1) by simp
  have xne: "x \<noteq> []"
    using rps_room_invD(1)[OF rr, of "\<not> who"] assms(6) valid_choice_nonempty by simp
  have nt: "\<not> truthy (r_myChoice c)" using assms(4) makeChoice_rejected[of c ch now] by auto
  have o: "slot (\<not> r_isPlayer1 c) (game_state (r_gameState c)) = Some x"
    using assms(6) by (simp add: cr(4) gs)
  have w0: "winner_id r = None"
    using row_invD(4)[OF i(1)] cs(1) by (cases "winner_id r") auto
  have pp: "player2_id (r_gameRoom c) = (if who then None else player2_id r)"
  proof (cases who)
    case True
    then have "compA w = Some (RPS c)" using assms(3) by (simp add: comp_of_def)
    then show ?thesis using compA_okD(2)[OF i(2)] True by simp
  next
    case False
    then show ?thesis using cr(5) by simp
  qed
  from makeChoice_second[OF cr(3) nt o xne, of ch now] assms(4)
  have u: "u_winner_id u =
             (if ch = x then None
              else Some (if winConditions (if who then ch else x) = Some (if who then x else ch)
                         then Some (player1_id r) else (if who then None else player2_id r)))"
    by (auto simp: cr(4) p1 pp)
  have "winner_id (apply_updates r u) =
         (if ch = x then None
          else if beats (if who then ch else x) (if who then x else ch) then Some (player1_id r)
          else if who then None else player2_id r)"
    using u w0 by (simp add: apply_updates_def beats_winConditions)
  moreover have "status (apply_updates r u) = ''completed''"
    using cs(5) assms(6) by simp
  moreover have "slot who (game_state (apply_updates r u)) = Some ch"
    "slot (\<not> who) (game_state (apply_updates r u)) = Some x"
    using assms(6) by (simp_all add: cs(4))
  ultimately show ?thesis by simp
qed

lemma fl_tenth: "fl (1 / 10) = 3602879701896397 / 36028797018963968"
  by code_simp

lemma fl_small_int: "fl 100 = 100 \<and> fl 23 = 23 \<and> fl (- 7) = - 7 \<and> fl 0 = 0"
  by code_simp

lemma expo_lower:
  assumes "0 < x"
  shows "2 powi (expo x) \<le> x"
proof (cases "1 \<le> x")
  case True
  then have f: "0 < \<lfloor>x\<rfloor>" by linarith
  from bitlen_bounds[OF f] have b: "2 ^ nat (bitlen \<lfloor>x\<rfloor> - 1) \<le> \<lfloor>x\<rfloor>" by simp
  have "0 \<le> bitlen \<lfloor>x\<rfloor> - 1" using f by (simp add: bitlen_alt_def)
  then have "2 powi (expo x) = (2::rat) ^ nat (bitlen \<lfloor>x\<rfloor> - 1)"
    using True by (simp add: expo_def power_int_def)
  also have "\<dots> = of_int (2 ^ nat (bitlen \<lfloor>x\<rfloor> - 1))" by simp
  also have "\<dots> \<le> of_int \<lfloor>x\<rfloor>" using b by (simp only: of_int_le_iff)
  also have "\<dots> \<le> x" by simp
  finally show ?thesis .
next
  case False
  then have x1: "x < 1" by simp
  define n where "n = \<lceil>1 / x\<rceil> - 1"
  have "1 < 1 / x" using assms x1 by (simp add: field_simps)
  then have n1: "0 < n" unfolding n_def by linarith
  from bitlen_bounds[OF n1] have "n < 2 ^ nat (bitlen n)" by simp
  then have "n + 1 \<le> 2 ^ nat (bitlen n)" by simp
  then have "(of_int (n + 1) :: rat) \<le> of_int (2 ^ nat (bitlen n))" by (simp only: of_int_le_iff)
  moreover have "1 / x \<le> of_int (n + 1)" unfolding n_def by simp
  ultimately have "1 / x \<le> 2 ^ nat (bitlen n)" by simp
  then have "1 / 2 ^ nat (bitlen n) \<le> x"
    using assms by (simp add: field_simps)
  moreover have "2 powi (expo x) = 1 / (2::rat) ^ nat (bitlen n)"
    using False bitlen_nonneg[of n] by (simp add: expo_def n_def power_int_def field_simps)
  ultimately show ?thesis by simp
qed

lemma round_even_err: "\<bar>of_int (round_even m) - m\<bar> \<le> 1 / 2"
proof -
  define d where "d = m - of_int \<lfloor>m\<rfloor>"
  have d: "0 \<le> d" "d < 1" unfolding d_def by linarith+
  have m: "m = of_int \<lfloor>m\<rfloor> + d" unfolding d_def by simp
  consider "d < 1 / 2" | "1 / 2 < d" | "d = 1 / 2" by linarith
  then show ?thesis
  proof cases
    case 1
    then have "round_even m = \<lfloor>m\<rfloor>" by (simp add: round_even_def Let_def d_def)
    then have "of_int (round_even m) - m = - d" by (simp add: d_def)
    then show ?thesis using 1 d by simp
  next
    case 2
    then have "round_even m = \<lfloor>m\<rfloor> + 1" by (simp add: round_even_def Let_def d_def)
    then have "of_int (round_even m) - m = 1 - d" by (simp add: d_def)
    then show ?thesis using 2 d by simp
  next
    case 3
    then have "round_even m = \<lfloor>m\<rfloor> \<or> round_even m = \<lfloor>m\<rfloor> + 1"
      by (simp add: round_even_def Let_def d_def)
    then have "of_int (round_even m) - m = - d \<or> of_int (round_even m) - m = 1 - d"
      by (auto simp: d_def)
    then show ?thesis using 3 by auto
  qed
qed

lemma fl_err: "\<bar>fl x - x\<bar> \<le> \<bar>x\<bar> / 2 ^ 53"
proof (cases "x = 0")
  case True
  then show ?thesis by (simp add: fl_def)
next
  case False
  define y where "y = \<bar>x\<bar>"
  define q :: rat where "q = 2 powi (expo y - 52)"
  define n where "n = round_even (y / q)"
  define s :: rat where "s = (if x < 0 then - 1 else 1)"
  have y: "0 < y" using False by (simp add: y_def)
  have q: "0 < q" by (simp add: q_def)
  have flx: "fl x = s * of_int n * q"
    using False by (simp add: fl_def Let_def y_def q_def n_def s_def)
  have x: "x = s * y" by (simp add: s_def y_def)
  have s1: "\<bar>s\<bar> = 1" by (simp add: s_def)
  have "fl x - x = s * ((of_int n - y / q) * q)"
    using q by (simp add: flx x[symmetric] field_simps)
  then have "\<bar>fl x - x\<bar> = \<bar>of_int n - y / q\<bar> * q"
    using q s1 by (simp add: abs_mult)
  also have "\<dots> \<le> (1 / 2) * q"
    using round_even_err[of "y / q"] q by (intro mult_right_mono) (simp_all add: n_def)
  also have "q = 2 powi (expo y) / 2 ^ 52"
    by (simp add: q_def power_int_diff)
  also have "(1 / 2) * (2 powi (expo y) / 2 ^ 52) \<le> (1 / 2) * (y / 2 ^ 52)"
    using expo_lower[OF y] by (intro mult_left_mono divide_right_mono) simp_all
  also have "\<dots> = y / 2 ^ 53" by simp
  finally show ?thesis by (simp add: y_def)
qed

lemma percent_err:
  fixes p w :: int
  assumes "0 < p"
  defines "v \<equiv> 100 * (of_int w :: rat) / of_int p"
  defines "t \<equiv> fl (fl (of_int w / of_int p) * 100)"
  shows "\<bar>t - v\<bar> \<le> 3 * \<bar>v\<bar> / 2 ^ 53"
proof -
  define a :: rat where "a = of_int w / of_int p"
  define b :: rat where "b = fl a * 100"
  have va: "v = 100 * a" by (simp add: v_def a_def)
  have e1: "\<bar>fl a - a\<bar> \<le> \<bar>a\<bar> / 2 ^ 53" by (rule fl_err)
  have "b - v = 100 * (fl a - a)" by (simp add: b_def va algebra_simps)
  then have "\<bar>b - v\<bar> = \<bar>100 * (fl a - a)\<bar>" by (simp only:)
  also have "\<dots> = \<bar>100\<bar> * \<bar>fl a - a\<bar>" by (rule abs_mult)
  also have "\<dots> = 100 * \<bar>fl a - a\<bar>" by simp
  finally have "\<bar>b - v\<bar> = 100 * \<bar>fl a - a\<bar>" .
  also have "\<dots> \<le> 100 * (\<bar>a\<bar> / 2 ^ 53)" using e1 by simp
  also have "\<dots> = \<bar>v\<bar> / 2 ^ 53" by (simp add: va abs_mult)
  finally have e2: "\<bar>b - v\<bar> \<le> \<bar>v\<bar> / 2 ^ 53" .
  have "\<bar>v\<bar> / 2 ^ 53 \<le> \<bar>v\<bar>" by (simp add: field_simps)
  then have bb: "\<bar>b\<bar> \<le> 2 * \<bar>v\<bar>" using e2 by linarith
  have "\<bar>t - b\<bar> \<le> \<bar>b\<bar> / 2 ^ 53"
    unfolding t_def b_def a_def by (rule fl_err)
  also have "\<dots> \<le> (2 * \<bar>v\<bar>) / 2 ^ 53" using bb by (intro divide_right_mono) simp_all
  finally have e3: "\<bar>t - b\<bar> \<le> 2 * \<bar>v\<bar> / 2 ^ 53" .
  have "\<bar>t - v\<bar> \<le> \<bar>t - b\<bar> + \<bar>b - v\<bar>" by linarith
  then show ?thesis using e2 e3 by (simp add: field_simps)
qed

lemma percent_close:
  fixes p w :: int
  assumes "0 < p" "\<bar>w\<bar> < 2 ^ 31"
  shows "\<bar>fl (fl (of_int w / of_int p) * 100) - 100 * (of_int w :: rat) / of_int p\<bar>
           < 1 / (2 * of_int p)"
proof -
  have P: "(0::rat) < of_int p" using assms(1) by simp
  have "600 * \<bar>w\<bar> < 2 ^ 53" using assms(2) by simp
  then have "(of_int (600 * \<bar>w\<bar>) :: rat) < of_int (2 ^ 53)" by (simp only: of_int_less_iff)
  then have w: "600 * \<bar>of_int w :: rat\<bar> < 2 ^ 53" by simp
  have "3 * \<bar>100 * (of_int w :: rat) / of_int p\<bar> / 2 ^ 53
          = (600 * \<bar>of_int w\<bar> / 2 ^ 53) * (1 / (2 * of_int p))"
    using P by (simp add: abs_mult field_simps)
  also have "\<dots> < 1 * (1 / (2 * of_int p))"
    using w P by (intro mult_strict_right_mono) (simp_all add: field_simps)
  finally show ?thesis using percent_err[OF assms(1), of w] by simp
qed

lemma round_near:
  fixes p w :: int and t :: rat
  assumes p: "0 < p"
    and c: "\<bar>t - 100 * (of_int w :: rat) / of_int p\<bar> < 1 / (2 * of_int p)"
  shows "if halfway p w
         then Math_round t = exact_percent p w \<or> Math_round t = exact_percent p w - 1
         else Math_round t = exact_percent p w"
proof -
  define N where "N = 200 * w + p"
  define D where "D = 2 * p"
  define h where "h = N div D"
  define r where "r = N mod D"
  have D: "0 < D" using p by (simp add: D_def)
  have DR: "(0::rat) < of_int D" using D by simp
  have N: "N = D * h + r" by (simp add: h_def r_def)
  have r: "0 \<le> r" "r < D" using D by (simp_all add: r_def)
  define v :: rat where "v = 100 * of_int w / of_int p"
  have vh: "v + 1 / 2 = of_int N / of_int D"
    using p by (simp add: v_def N_def D_def field_simps)
  have ep: "exact_percent p w = h"
    unfolding exact_percent_def v_def[symmetric] vh h_def by (simp add: floor_divide_of_int_eq)
  have hw: "halfway p w = (r = 0)" by (simp add: halfway_def r_def N_def D_def)
  have NR: "(of_int N :: rat) = of_int D * of_int h + of_int r"
    by (simp add: N)
  have c1: "t - v < 1 / of_int D" "v - t < 1 / of_int D"
    using c by (simp_all add: v_def D_def abs_less_iff)
  have lo: "of_int N / of_int D - 1 / of_int D < t + 1 / 2"
    and hi: "t + 1 / 2 < of_int N / of_int D + 1 / of_int D"
    using c1 vh by linarith+
  have nd: "(of_int N :: rat) / of_int D = of_int h + of_int r / of_int D"
    using DR by (simp add: NR field_simps)
  show ?thesis
  proof (cases "r = 0")
    case True
    have "1 / (of_int D :: rat) \<le> 1" using D by (simp add: field_simps)
    then have "of_int (h - 1) \<le> t + 1 / 2" "t + 1 / 2 < of_int (h - 1) + 2"
      using lo hi True by (simp_all add: nd)
    then have "\<lfloor>t + 1 / 2\<rfloor> = h - 1 \<or> \<lfloor>t + 1 / 2\<rfloor> = h"
      by linarith
    then show ?thesis using True hw ep by (auto simp: Math_round_def)
  next
    case False
    then have r1: "1 \<le> r" "r + 1 \<le> D" using r by simp_all
    have a: "(1::rat) \<le> of_int r" "(of_int r :: rat) + 1 \<le> of_int D"
      using r1 by (simp_all only: of_int_le_iff[symmetric, where ?'a = rat] of_int_add of_int_1)
    have "of_int r / of_int D - 1 / (of_int D :: rat) \<ge> 0"
      using a DR by (simp add: field_simps)
    moreover have "of_int r / of_int D + 1 / (of_int D :: rat) \<le> 1"
      using a DR by (simp add: field_simps)
    ultimately have "of_int h \<le> t + 1 / 2" "t + 1 / 2 < of_int h + 1"
      using lo hi by (simp_all add: nd)
    then have "\<lfloor>t + 1 / 2\<rfloor> = h" by linarith
    then show ?thesis using False hw ep by (simp add: Math_round_def)
  qed
qed

lemma winRate_total: "winRate played won \<noteq> None"
  by (simp add: winRate_def js_div_def)

lemma winRate_pos:
  "0 < played \<Longrightarrow>
   winRate played won = Some (Math_round (fl (fl (of_int won / of_int played) * 100)))"
  by (simp add: winRate_def js_div_def)

text \<open>Claim C10, as the code has it. The displayed percentage is defined for every stats
  pair and the quotient is only formed under the guard \<open>0 < played\<close>, so never with a zero
  denominator; without games played the display is 0. For counters in the 32-bit range of the
  columns the display is the nearest integer to \<open>100 * won / played\<close> whenever that value is
  not exactly halfway between two integers; at a halfway value it is one of the two neighbours,
  because the quotient is rounded to binary64 before it is multiplied by 100.\<close>

theorem winRate_nearest_percent:
  "winRate played won \<noteq> None
   \<and> (played \<le> 0 \<longrightarrow> winRate played won = Some 0)
   \<and> (0 < played \<and> played < 2 ^ 31 \<and> \<bar>won\<bar> < 2 ^ 31 \<longrightarrow>
        (\<exists>k. winRate played won = Some k
           \<and> (if halfway played won
               then k = exact_percent played won \<or> k = exact_percent played won - 1
               else k = exact_percent played won)))"
proof (intro conjI impI)
  show "winRate played won \<noteq> None" by (rule winRate_total)
next
  assume "played \<le> 0"
  then show "winRate played won = Some 0" by (simp add: winRate_def)
next
  assume a: "0 < played \<and> played < 2 ^ 31 \<and> \<bar>won\<bar> < 2 ^ 31"
  then have p: "0 < played" and w: "\<bar>won\<bar> < 2 ^ 31" by simp_all
  let ?t = "fl (fl (of_int won / of_int played) * 100)"
  have "if halfway played won
        then Math_round ?t = exact_percent played won \<or> Math_round ?t = exact_percent played won - 1
        else Math_round ?t = exact_percent played won"
    by (rule round_near[OF p percent_close[OF p w]])
  then show "\<exists>k. winRate played won = Some k
           \<and> (if halfway played won
               then k = exact_percent played won \<or> k = exact_percent played won - 1
               else k = exact_percent played won)"
    by (simp add: winRate_pos[OF p])
qed

theorem winRate_nearest_percent_witness:
  "winRate 0 5 = Some 0
   \<and> (0::int) < 3 \<and> (3::int) < 2 ^ 31 \<and> \<bar>1::int\<bar> < 2 ^ 31 \<and> \<not> halfway 3 1
   \<and> winRate 3 1 = Some (exact_percent 3 1) \<and> exact_percent 3 1 = 33
   \<and> (0::int) < 8 \<and> (8::int) < 2 ^ 31 \<and> halfway 8 1
   \<and> (winRate 8 1 = Some (exact_percent 8 1) \<or> winRate 8 1 = Some (exact_percent 8 1 - 1))"
proof -
  have h3: "\<not> halfway 3 1" by code_simp
  have h8: "halfway 8 1" by code_simp
  have e3: "exact_percent 3 1 = 33" by code_simp
  have z: "winRate 0 5 = Some 0" using winRate_nearest_percent[of 0 5] by simp
  have a: "winRate 3 1 = Some (exact_percent 3 1)"
    using winRate_nearest_percent[of 3 1] h3 by auto
  have b: "winRate 8 1 = Some (exact_percent 8 1) \<or> winRate 8 1 = Some (exact_percent 8 1 - 1)"
    using winRate_nearest_percent[of 8 1] h8 by auto
  show ?thesis using h3 h8 e3 z a b by simp
qed

text \<open>Claim C10 as stated fails at a halfway value: with 40 games played and 23 won the exact
  percentage is 57.5, which rounds to 58, and the display is 57: 23 / 40 is rounded down to
  binary64, its product with 100 is the binary64 number just below 57.5, and \<open>Math.round\<close>
  of that is 57.\<close>

theorem winRate_halfway_rounds_down:
  "winRate 40 23 = Some 57 \<and> exact_percent 40 23 = 58
   \<and> winRate 40 23 \<noteq> Some (exact_percent 40 23)"
  by code_simp

end
